(* ===== verification/GA_Prelude.thy ===== *)
theory GA_Prelude
  imports Main
begin

text \<open>
  Shared vocabulary of the development: the errors a call of the adapter can raise
  (a \<open>JovoError\<close> of \<open>jovo-core\<close> or a JavaScript \<open>TypeError\<close>), the outcome
  of a call that may throw and its sequencing \<open>seqE\<close>, and the generic lemmas on outcomes
  that the component theories use.  The named collection \<open>ga_simps\<close> gathers the characteristic
  equations of the operations, one per branch of the source, so that component proofs are
  \<open>simp add: ga_simps\<close>.
\<close>

named_theorems ga_simps "characteristic equations of the modelled operations"

subsection \<open>Errors\<close>

text \<open>\<open>ErrorCode\<close> of \<open>jovo-core\<close>; only the codes the plugin code uses are constructors.\<close>

datatype error_code = ERR | ERR_PLUGIN

text \<open>
  \<open>JovoError message code module\<close> is \<open>new JovoError(message, code, module)\<close>;
  \<open>TypeError message\<close> is what the JavaScript runtime throws on a property access or a call
  on \<open>undefined\<close> (a failed non-null assertion \<open>x!\<close> at run time).
\<close>

datatype js_error =
    JovoError string error_code string
  | TypeError string

text \<open>
  A call either returns normally or throws; in both cases the objects it mutated before
  the throw stay mutated (JavaScript has no rollback).  So an outcome carries the state in
  both cases: \<open>Ok s\<close>, or \<open>Threw e s\<close> with the state at the throw.
\<close>

datatype 's outcome = Ok 's | Threw js_error 's

fun state_of :: "'s outcome \<Rightarrow> 's" where
  "state_of (Ok s) = s"
| "state_of (Threw e s) = s"

fun map_outcome :: "('s \<Rightarrow> 't) \<Rightarrow> 's outcome \<Rightarrow> 't outcome" where
  "map_outcome f (Ok s) = Ok (f s)"
| "map_outcome f (Threw e s) = Threw e (f s)"

subsection \<open>Sequencing\<close>

text \<open>\<open>a; b\<close>: the second statement runs only when the first did not throw.\<close>

definition seqE :: "'s outcome \<Rightarrow> ('s \<Rightarrow> 's outcome) \<Rightarrow> 's outcome" where
  "seqE m f = (case m of Ok s \<Rightarrow> f s | Threw e s \<Rightarrow> Threw e s)"

lemma seqE_Ok [simp]: "seqE (Ok s) f = f s"
  by (simp add: seqE_def)

lemma seqE_Threw [simp]: "seqE (Threw e s) f = Threw e s"
  by (simp add: seqE_def)

lemma seqE_eq_Ok_iff:
  "seqE m f = Ok t \<longleftrightarrow> (\<exists>s. m = Ok s \<and> f s = Ok t)"
  by (cases m) simp_all

lemma seqE_assoc:
  "seqE (seqE m f) g = seqE m (\<lambda>s. seqE (f s) g)"
  by (cases m) simp_all

lemma seqE_Ok_right [simp]: "seqE m Ok = m"
  by (cases m) simp_all

lemma state_of_map_outcome [simp]: "state_of (map_outcome f m) = f (state_of m)"
  by (cases m) simp_all

end
