(* ===== verification/JS_Values.thy ===== *)
theory JS_Values
  imports GA_Prelude "HOL-Library.While_Combinator"
begin

text \<open>
  The JavaScript semantics the adapter relies on, as far as its lines use it: the values a
  request object holds (\<open>jsval\<close>), the truthiness of a condition \<open>if (x)\<close>, the string
  conversion of a template literal \<open>`${x} ...`\<close>, and \<open>lodash.get\<close> with a dotted path
  string, which the adapter calls to read \<open>request.metadata.referrer\<close>.
  Numbers are integers here (no fractions, no \<open>NaN\<close>): the adapter only tests them for
  truthiness and prints them.  Objects are association lists whose keys are distinct, as
  \<open>JSON.parse\<close> produces them; only own properties are looked up.
\<close>

datatype jsval =
    JUndef
  | JNull
  | JBool bool
  | JNum int
  | JStr string
  | JObj "(string \<times> jsval) list"

subsection \<open>Truthiness\<close>

text \<open>\<open>ToBoolean\<close>: \<open>undefined\<close>, \<open>null\<close>, \<open>false\<close>, \<open>0\<close> and \<open>''\<close> are falsy.\<close>

fun js_truthy :: "jsval \<Rightarrow> bool" where
  "js_truthy JUndef = False"
| "js_truthy JNull = False"
| "js_truthy (JBool b) = b"
| "js_truthy (JNum n) = (n \<noteq> 0)"
| "js_truthy (JStr s) = (s \<noteq> [])"
| "js_truthy (JObj ps) = True"

fun is_nullish :: "jsval \<Rightarrow> bool" where
  "is_nullish JUndef = True"
| "is_nullish JNull = True"
| "is_nullish _ = False"

subsection \<open>String conversion in a template literal\<close>

fun nat_to_string :: "nat \<Rightarrow> string" where
  "nat_to_string n =
     (if n < 10 then [char_of (48 + n)]
      else nat_to_string (n div 10) @ [char_of (48 + n mod 10)])"

declare nat_to_string.simps [simp del]

definition int_to_string :: "int \<Rightarrow> string" where
  "int_to_string i =
     (if i < 0 then CHR ''-'' # nat_to_string (nat (- i)) else nat_to_string (nat i))"

text \<open>\<open>ToString\<close> as a template literal applies it to each substitution.\<close>

fun js_to_string :: "jsval \<Rightarrow> string" where
  "js_to_string JUndef = ''undefined''"
| "js_to_string JNull = ''null''"
| "js_to_string (JBool b) = (if b then ''true'' else ''false'')"
| "js_to_string (JNum n) = int_to_string n"
| "js_to_string (JStr s) = s"
| "js_to_string (JObj ps) = ''[object Object]''"

subsection \<open>Property access and lodash.get\<close>

text \<open>\<open>object[key]\<close>: an own property of an object, \<open>undefined\<close> otherwise.\<close>

fun prop_get :: "jsval \<Rightarrow> string \<Rightarrow> jsval" where
  "prop_get (JObj ps) k = (case map_of ps k of Some v \<Rightarrow> v | None \<Rightarrow> JUndef)"
| "prop_get v k = JUndef"

fun has_key :: "jsval \<Rightarrow> string \<Rightarrow> bool" where
  "has_key (JObj ps) k = (k \<in> set (map fst ps))"
| "has_key v k = False"

text \<open>
  lodash's \<open>stringToPath\<close> on a path without brackets or quotes: the segments between
  dots, empty segments included (\<open>'a..b'\<close> is \<open>['a', '', 'b']\<close>).
\<close>

fun split_dots :: "string \<Rightarrow> string list" where
  "split_dots [] = [[]]"
| "split_dots (c # cs) =
     (if c = CHR ''.'' then [] # split_dots cs
      else (case split_dots cs of [] \<Rightarrow> [[c]] | w # ws \<Rightarrow> (c # w) # ws))"

text \<open>
  \<open>castPath\<close>: a string that is itself a key of the object (\<open>isKey\<close>) is a one-segment
  path, any other is split at its dots.
\<close>

definition cast_path :: "jsval \<Rightarrow> string \<Rightarrow> string list" where
  "cast_path obj s = (if has_key obj s then [s] else split_dots s)"

text \<open>
  The walk along a path, one segment at a time; \<open>None\<close> when it meets \<open>null\<close> or
  \<open>undefined\<close> before the path is used up.  This is the reference the loop of
  \<open>baseGet\<close> below is proved to compute.
\<close>

fun get_walk :: "jsval \<Rightarrow> string list \<Rightarrow> jsval option" where
  "get_walk v [] = Some v"
| "get_walk v (k # ks) = (if is_nullish v then None else get_walk (prop_get v k) ks)"

text \<open>
  The loop of \<open>baseGet\<close> on its state \<open>(object, index)\<close>:
  \<open>while (object != null && index < length) object = object[toKey(path[index++])]\<close>
  (\<open>toKey\<close> is the identity on strings).  \<open>None\<close> would be a loop that never
  exits; \<open>base_get_loop_halts\<close> shows there is none.
\<close>

definition base_get_loop :: "string list \<Rightarrow> jsval \<times> nat \<Rightarrow> (jsval \<times> nat) option" where
  "base_get_loop path =
     while_option (\<lambda>(object, index). \<not> is_nullish object \<and> index < length path)
                  (\<lambda>(object, index). (prop_get object (path ! index), Suc index))"

text \<open>
  \<open>baseGet(object, path)\<close>: the loop from index \<open>0\<close>, then
  \<open>return (index && index == length) ? object : undefined\<close>.
\<close>

definition base_get :: "jsval \<Rightarrow> string list \<Rightarrow> jsval" where
  "base_get object path =
     (case base_get_loop path (object, 0) of
        None \<Rightarrow> JUndef
      | Some (object', index) \<Rightarrow> if index \<noteq> 0 \<and> index = length path then object' else JUndef)"

text \<open>\<open>get(object, path)\<close> with no default: \<open>undefined\<close> stays \<open>undefined\<close>.\<close>

definition lodash_get :: "jsval \<Rightarrow> string \<Rightarrow> jsval" where
  "lodash_get obj s = base_get obj (cast_path obj s)"

subsection \<open>Lemmas\<close>

lemma get_walk_append:
  "get_walk v (p @ q) = (case get_walk v p of None \<Rightarrow> None | Some w \<Rightarrow> get_walk w q)"
  by (induction v p rule: get_walk.induct) auto

lemma get_walk_nullish_Cons [simp]: "is_nullish v \<Longrightarrow> get_walk v (k # ks) = None"
  by simp

lemma split_dots_nonempty [simp]: "split_dots s \<noteq> []"
  by (induction s) (auto split: list.split)

lemma split_dots_no_dot: "CHR ''.'' \<notin> set w \<Longrightarrow> split_dots w = [w]"
  by (induction w) auto

lemma split_dots_dot_append:
  "CHR ''.'' \<notin> set w \<Longrightarrow> split_dots (w @ CHR ''.'' # r) = w # split_dots r"
  by (induction w) auto

lemma cast_path_nonempty: "cast_path obj s \<noteq> []"
  by (simp add: cast_path_def)

lemma base_get_loop_halts: "\<exists>t. base_get_loop path s = Some t"
  unfolding base_get_loop_def
  by (rule measure_while_option_Some [where P = "\<lambda>_. True" and f = "\<lambda>(w, i). length path - i"])
     (auto simp: diff_less_mono2)

lemma base_get_loop_result:
  assumes "base_get_loop path (v, 0) = Some (w, i)"
  shows "i \<le> length path \<and> get_walk v (take i path) = Some w \<and> (i < length path \<longrightarrow> is_nullish w)"
proof -
  let ?b = "\<lambda>(object, index). \<not> is_nullish object \<and> index < length path"
  let ?c = "\<lambda>(object, index). (prop_get object (path ! index), Suc index)"
  have run: "while_option ?b ?c (v, 0) = Some (w, i)" using assms by (simp add: base_get_loop_def)
  txt \<open>The invariant: the object reached is the walk along the segments used so far.\<close>
  have "(\<lambda>(w, i). i \<le> length path \<and> get_walk v (take i path) = Some w) (w, i)"
    by (rule while_option_rule [OF _ run]) (auto simp: take_Suc_conv_app_nth get_walk_append)
  with while_option_stop [OF run] show ?thesis by auto
qed

text \<open>What \<open>baseGet\<close> returns, in terms of the walk; the lemmas about \<open>lodash.get\<close> in
  the adapter's theories are proved with it.\<close>

lemma base_get_walk:
  "base_get v path = (if path = [] then JUndef else (case get_walk v path of None \<Rightarrow> JUndef | Some r \<Rightarrow> r))"
proof -
  obtain w i where run: "base_get_loop path (v, 0) = Some (w, i)"
    using base_get_loop_halts [of path "(v, 0)"] by auto
  note r = base_get_loop_result [OF run]
  show ?thesis
  proof (cases "i = length path")
    case True
    with r run show ?thesis by (simp add: base_get_def)
  next
    case False
    with r have "i < length path" and "is_nullish w" by auto
    from id_take_nth_drop [OF \<open>i < length path\<close>]
    have "get_walk v path = get_walk v (take i path @ path ! i # drop (Suc i) path)"
      by (rule arg_cong [where f = "get_walk v"])
    also have "\<dots> = None" using r \<open>is_nullish w\<close> by (simp add: get_walk_append)
    finally have "get_walk v path = None" .
    with False run show ?thesis by (simp add: base_get_def)
  qed
qed

text \<open>\<open>lodash.get\<close> with its loop is the walk along the cast path.\<close>

lemma lodash_get_walk:
  "lodash_get obj s = (case get_walk obj (cast_path obj s) of None \<Rightarrow> JUndef | Some r \<Rightarrow> r)"
  by (simp add: lodash_get_def base_get_walk cast_path_nonempty)

end
