(* ===== verification/Jovo_Core.thy ===== *)
theory Jovo_Core
  imports JS_Values
begin

text \<open>
  The host framework as the adapter sees it (\<open>jovo-core\<close> and \<open>jovo-platform-alexa\<close>,
  outside \<open>src/\<close>, modelled from the spec): the per-request \<open>Jovo\<close> object and the
  \<open>HandleRequest\<close> that carries it, the Alexa request and skill accessors the adapter
  calls, and the application's middleware registry with the sequential run of its hooks.
  The registry is polymorphic in the hook type \<open>'h\<close> and the run in the state \<open>'w\<close> the
  hooks act on: the plugin theories instantiate both.
\<close>

subsection \<open>Requests and the Jovo object\<close>

text \<open>
  The results of the \<open>AlexaRequest\<close> accessors \<open>getDeviceName()\<close> and
  \<open>getScreenResolution()\<close>, and the request's JSON body that \<open>lodash.get\<close> reads.
\<close>

record alexa_request =
  ar_body :: jsval
  ar_device_name :: jsval
  ar_screen_resolution :: jsval

text \<open>\<open>jovo.$request\<close>: an Alexa request, or the request of another platform.\<close>

datatype platform_request = AlexaReq alexa_request | OtherReq jsval

text \<open>\<open>jovo.$alexaSkill\<close>, with what its \<open>getEndReason()\<close> returns.\<close>

record alexa_skill =
  as_end_reason :: jsval

text \<open>
  The \<open>Jovo\<close> object: the name of its class (\<open>jovo.constructor.name\<close>) and of the
  classes it inherits from (nearest first), the request, the Alexa sub-object, the
  session data (\<open>$session.$data\<close>), the names of the properties plugins attached to it,
  and the events the framework recorded as unhandled during this request.
\<close>

record jovo =
  ctor_name :: string
  ancestors :: "string list"
  request :: platform_request
  alexa_skill :: "alexa_skill option"
  session_data :: "string \<rightharpoonup> jsval"
  attached :: "string set"
  unhandled_events :: "string list"

definition constructor_name :: "jovo \<Rightarrow> string" where
  "constructor_name j = ctor_name j"

text \<open>\<open>j instanceof C\<close>: \<open>C\<close> is the class of \<open>j\<close> or one of its ancestors.\<close>

definition instance_of :: "string \<Rightarrow> jovo \<Rightarrow> bool" where
  "instance_of c j \<longleftrightarrow> c = ctor_name j \<or> c \<in> set (ancestors j)"

text \<open>
  What \<open>jovo-platform-alexa\<close> guarantees of a Jovo object: an \<open>AlexaSkill\<close> (or an
  instance of a subclass of it) sets \<open>$alexaSkill\<close> to itself and carries an Alexa request;
  other platforms do neither.
\<close>

definition wf_jovo :: "jovo \<Rightarrow> bool" where
  "wf_jovo j \<longleftrightarrow>
     (alexa_skill j \<noteq> None \<longleftrightarrow> instance_of ''AlexaSkill'' j) \<and>
     (instance_of ''AlexaSkill'' j \<longleftrightarrow> (\<exists>r. request j = AlexaReq r))"

text \<open>\<open>HandleRequest\<close>: \<open>jovo\<close> is optional in its type (\<open>handleRequest.jovo?\<close>).\<close>

record handle_request =
  hr_jovo :: "jovo option"

subsection \<open>Middleware registry\<close>

text \<open>
  \<open>app.middleware(name)\<close> returns the middleware registered under that name, or
  \<open>undefined\<close>; a middleware is its list of hooks; \<open>mw_order\<close> is the order in which the
  framework runs the middlewares on a request.
\<close>

record 'h app =
  middlewares :: "string \<rightharpoonup> 'h list"
  mw_order :: "string list"

definition middleware :: "string \<Rightarrow> 'h app \<Rightarrow> 'h list option" where
  "middleware name a = middlewares a name"

text \<open>\<open>app.middleware(name)?.use(h)\<close>: appends the hook, or does nothing when absent.\<close>

definition use_opt :: "string \<Rightarrow> 'h \<Rightarrow> 'h app \<Rightarrow> 'h app" where
  "use_opt name h a =
     (case middleware name a of
        None \<Rightarrow> a
      | Some hs \<Rightarrow> a\<lparr>middlewares := (middlewares a)(name \<mapsto> hs @ [h])\<rparr>)"

text \<open>\<open>app.middleware(name)!.use(h)\<close>: a \<open>TypeError\<close> when the middleware is absent.\<close>

definition use_strict :: "string \<Rightarrow> 'h \<Rightarrow> 'h app \<Rightarrow> 'h app outcome" where
  "use_strict name h a =
     (case middleware name a of
        None \<Rightarrow> Threw (TypeError ''Cannot read properties of undefined (reading 'use')'') a
      | Some hs \<Rightarrow> Ok (a\<lparr>middlewares := (middlewares a)(name \<mapsto> hs @ [h])\<rparr>))"

subsection \<open>Running the middlewares\<close>

text \<open>The hooks of one middleware run in registration order; a throw stops the run.\<close>

fun run_hooks :: "('h \<Rightarrow> 'w \<Rightarrow> 'w outcome) \<Rightarrow> 'h list \<Rightarrow> 'w \<Rightarrow> 'w outcome" where
  "run_hooks ex [] w = Ok w"
| "run_hooks ex (h # hs) w = seqE (ex h w) (run_hooks ex hs)"

definition hooks_of :: "'h app \<Rightarrow> string \<Rightarrow> 'h list" where
  "hooks_of a name = (case middleware name a of None \<Rightarrow> [] | Some hs \<Rightarrow> hs)"

fun run_middlewares :: "('h \<Rightarrow> 'w \<Rightarrow> 'w outcome) \<Rightarrow> 'h app \<Rightarrow> string list \<Rightarrow> 'w \<Rightarrow> 'w outcome" where
  "run_middlewares ex a [] w = Ok w"
| "run_middlewares ex a (n # ns) w = seqE (run_hooks ex (hooks_of a n) w) (run_middlewares ex a ns)"

definition handle :: "('h \<Rightarrow> 'w \<Rightarrow> 'w outcome) \<Rightarrow> 'h app \<Rightarrow> 'w \<Rightarrow> 'w outcome" where
  "handle ex a w = run_middlewares ex a (mw_order a) w"

text \<open>The sum of a weight \<open>c\<close> over the hooks of the middlewares \<open>ns\<close>.\<close>

definition hook_weight :: "('h \<Rightarrow> nat) \<Rightarrow> 'h app \<Rightarrow> string list \<Rightarrow> nat" where
  "hook_weight c a ns = sum_list (map (\<lambda>n. sum_list (map c (hooks_of a n))) ns)"

subsection \<open>Lemmas\<close>

lemma run_hooks_append:
  "run_hooks ex (xs @ ys) w = seqE (run_hooks ex xs w) (run_hooks ex ys)"
  by (induction xs arbitrary: w) (auto simp: seqE_def split: outcome.split)

lemma run_middlewares_append:
  "run_middlewares ex a (xs @ ys) w = seqE (run_middlewares ex a xs w) (run_middlewares ex a ys)"
  by (induction xs arbitrary: w) (auto simp: seqE_def split: outcome.split)

lemma hooks_of_use_opt:
  "hooks_of (use_opt name h a) n =
     (if n = name \<and> middleware name a \<noteq> None then hooks_of a n @ [h] else hooks_of a n)"
  by (auto simp: use_opt_def hooks_of_def middleware_def split: option.splits)

lemma use_strict_Ok_hooks:
  "use_strict name h a = Ok a' \<Longrightarrow>
     hooks_of a' n = (if n = name then hooks_of a n @ [h] else hooks_of a n)"
  by (auto simp: use_strict_def hooks_of_def middleware_def split: option.splits)

lemma use_strict_mw_order:
  "mw_order (state_of (use_strict name h a)) = mw_order a"
  by (simp add: use_strict_def split: option.splits)

lemma use_opt_mw_order [simp]: "mw_order (use_opt name h a) = mw_order a"
  by (simp add: use_opt_def split: option.splits)

text \<open>A relation between states that every hook establishes and that composes is
  established by a whole run, thrown or not (the state at a throw included).\<close>

lemma run_hooks_rel:
  assumes step: "\<And>h w. R w (state_of (ex h w))"
    and refl: "\<And>x. R x x" and trans: "\<And>x y z. R x y \<Longrightarrow> R y z \<Longrightarrow> R x z"
  shows "R w (state_of (run_hooks ex hs w))"
proof (induction hs arbitrary: w)
  case Nil
  then show ?case by (simp add: refl)
next
  case (Cons h hs)
  show ?case
  proof (cases "ex h w")
    case (Ok s)
    with step [of w h] Cons.IH [of s] show ?thesis by (auto intro: trans)
  next
    case (Threw e s)
    with step [of w h] show ?thesis by simp
  qed
qed

lemma run_middlewares_rel:
  assumes step: "\<And>h w. R w (state_of (ex h w))"
    and refl: "\<And>x. R x x" and trans: "\<And>x y z. R x y \<Longrightarrow> R y z \<Longrightarrow> R x z"
  shows "R w (state_of (run_middlewares ex a ns w))"
proof (induction ns arbitrary: w)
  case Nil
  then show ?case by (simp add: refl)
next
  case (Cons n ns)
  have r: "R w (state_of (run_hooks ex (hooks_of a n) w))"
    by (rule run_hooks_rel [where R = R and ex = ex, OF step refl trans])
  show ?case
  proof (cases "run_hooks ex (hooks_of a n) w")
    case (Ok s)
    with r Cons.IH [of s] show ?thesis by (auto intro: trans)
  next
    case (Threw e s)
    with r show ?thesis by simp
  qed
qed

text \<open>A property of states that every hook keeps without throwing, while it raises a
  measure by exactly \<open>c h\<close>, is kept by a whole run, which does not throw and raises the
  measure by exactly \<open>hook_weight c\<close>.\<close>

lemma run_hooks_Ok_count:
  fixes f :: "'w \<Rightarrow> nat"
  assumes step: "\<And>h w. P w \<Longrightarrow> \<exists>w'. ex h w = Ok w' \<and> P w' \<and> f w' = f w + c h"
  shows "P w \<Longrightarrow> \<exists>w'. run_hooks ex hs w = Ok w' \<and> P w' \<and> f w' = f w + sum_list (map c hs)"
proof (induction hs arbitrary: w)
  case (Cons h hs)
  from step [OF Cons.prems] obtain w1 where "ex h w = Ok w1" and "P w1" and "f w1 = f w + c h"
    by blast
  with Cons.IH [of w1] show ?case by auto
qed simp

lemma run_middlewares_Ok_count:
  fixes f :: "'w \<Rightarrow> nat"
  assumes step: "\<And>h w. P w \<Longrightarrow> \<exists>w'. ex h w = Ok w' \<and> P w' \<and> f w' = f w + c h"
  shows "P w \<Longrightarrow> \<exists>w'. run_middlewares ex a ns w = Ok w' \<and> P w' \<and> f w' = f w + hook_weight c a ns"
proof (induction ns arbitrary: w)
  case Nil
  then show ?case by (simp add: hook_weight_def)
next
  case (Cons n ns)
  from run_hooks_Ok_count [where P = P and ex = ex and f = f and c = c, OF step Cons.prems,
      of "hooks_of a n"]
  obtain w1 where "run_hooks ex (hooks_of a n) w = Ok w1" and "P w1"
    and "f w1 = f w + sum_list (map c (hooks_of a n))" by blast
  with Cons.IH [of w1] show ?case by (auto simp: hook_weight_def)
qed

text \<open>A world that every hook either returns as it is or throws \<open>e\<close> from, unchanged:
  a run throws \<open>e\<close> exactly when it passes a hook of the second kind.\<close>

lemma run_hooks_const:
  assumes "\<And>h. ex h w = (if P h then Ok w else Threw e w)"
  shows "run_hooks ex hs w = (if list_ex (\<lambda>h. \<not> P h) hs then Threw e w else Ok w)"
  by (induction hs) (simp_all add: assms)

lemma run_middlewares_const:
  assumes "\<And>h. ex h w = (if P h then Ok w else Threw e w)"
  shows "run_middlewares ex a ns w =
           (if list_ex (\<lambda>n. list_ex (\<lambda>h. \<not> P h) (hooks_of a n)) ns then Threw e w else Ok w)"
  by (induction ns) (simp_all add: run_hooks_const [where ex = ex and P = P and e = e and w = w, OF assms])

lemma hook_weight_if: "hook_weight (\<lambda>h. if b then c h else 0) a ns = (if b then hook_weight c a ns else 0)"
  by (cases b) (simp_all add: hook_weight_def)

lemma run_hooks_single [simp]: "run_hooks ex [h] w = ex h w"
  by (simp add: seqE_def split: outcome.split)

text \<open>Middlewares without hooks do nothing.\<close>

lemma run_middlewares_no_hooks:
  "\<forall>n \<in> set ns. hooks_of a n = [] \<Longrightarrow> run_middlewares ex a ns w = Ok w"
  by (induction ns) simp_all

text \<open>A world that every hook of the run leaves as it is comes out of the run unchanged.\<close>

lemma run_hooks_fixpoint: "\<forall>h \<in> set hs. ex h w = Ok w \<Longrightarrow> run_hooks ex hs w = Ok w"
  by (induction hs) simp_all

lemma run_middlewares_fixpoint:
  "\<forall>n \<in> set ns. \<forall>h \<in> set (hooks_of a n). ex h w = Ok w \<Longrightarrow> run_middlewares ex a ns w = Ok w"
  by (induction ns) (simp_all add: run_hooks_fixpoint)

text \<open>A measure that each hook \<open>h\<close> raises by at most \<open>c h\<close> is raised by a run by at
  most \<open>hook_weight c\<close>, the sum of \<open>c\<close> over the hooks the run passes.\<close>

lemma run_hooks_bound_inv:
  fixes f :: "'w \<Rightarrow> nat"
  assumes step: "\<And>h w. P w \<Longrightarrow> P (state_of (ex h w)) \<and> f (state_of (ex h w)) \<le> f w + c h"
  shows "P w \<Longrightarrow> P (state_of (run_hooks ex hs w)) \<and> f (state_of (run_hooks ex hs w)) \<le> f w + sum_list (map c hs)"
proof (induction hs arbitrary: w)
  case (Cons h hs)
  show ?case
  proof (cases "ex h w")
    case (Ok s)
    with step [OF Cons.prems, of h] Cons.IH [of s] show ?thesis by simp
  next
    case (Threw e s)
    with step [OF Cons.prems, of h] show ?thesis by simp
  qed
qed simp

lemma run_middlewares_bound_inv:
  fixes f :: "'w \<Rightarrow> nat"
  assumes step: "\<And>h w. P w \<Longrightarrow> P (state_of (ex h w)) \<and> f (state_of (ex h w)) \<le> f w + c h"
  shows "P w \<Longrightarrow> P (state_of (run_middlewares ex a ns w)) \<and>
           f (state_of (run_middlewares ex a ns w)) \<le> f w + hook_weight c a ns"
proof (induction ns arbitrary: w)
  case Nil
  then show ?case by (simp add: hook_weight_def)
next
  case (Cons n ns)
  note b = run_hooks_bound_inv [where P = P and f = f and c = c and ex = ex, OF step Cons.prems,
      of "hooks_of a n"]
  show ?case
  proof (cases "run_hooks ex (hooks_of a n) w")
    case (Ok s)
    with b Cons.IH [of s] show ?thesis by (simp add: hook_weight_def)
  next
    case (Threw e s)
    with b show ?thesis by (simp add: hook_weight_def)
  qed
qed

lemma run_middlewares_bound:
  fixes f :: "'w \<Rightarrow> nat"
  assumes step: "\<And>h w. f (state_of (ex h w)) \<le> f w + c h"
  shows "f (state_of (run_middlewares ex a ns w)) \<le> f w + hook_weight c a ns"
  using run_middlewares_bound_inv [where P = "\<lambda>_. True" and f = f and c = c and ex = ex] step by blast

text \<open>A throw of a run is a throw of one of its hooks, from a state the run reached: what
  holds of every error a hook throws from an invariant state holds of the run's error.\<close>

lemma run_hooks_Threw:
  assumes step: "\<And>h w. P w \<Longrightarrow> P (state_of (ex h w))"
    and thr: "\<And>h w e w'. P w \<Longrightarrow> ex h w = Threw e w' \<Longrightarrow> Q e"
  shows "P w \<Longrightarrow> run_hooks ex hs w = Threw e w' \<Longrightarrow> Q e"
proof (induction hs arbitrary: w)
  case (Cons h hs)
  show ?case
  proof (cases "ex h w")
    case (Ok s)
    with step [OF Cons.prems(1), of h] Cons.IH [of s] Cons.prems(2) show ?thesis by simp
  next
    case (Threw e1 s)
    with thr [OF Cons.prems(1)] Cons.prems(2) show ?thesis by simp
  qed
qed simp

lemma run_middlewares_Threw:
  assumes step: "\<And>h w. P w \<Longrightarrow> P (state_of (ex h w))"
    and thr: "\<And>h w e w'. P w \<Longrightarrow> ex h w = Threw e w' \<Longrightarrow> Q e"
  shows "P w \<Longrightarrow> run_middlewares ex a ns w = Threw e w' \<Longrightarrow> Q e"
proof (induction ns arbitrary: w)
  case (Cons n ns)
  have st: "P (state_of (run_hooks ex (hooks_of a n) w))"
    using run_hooks_rel [where R = "\<lambda>x y. P x \<longrightarrow> P y" and ex = ex] step Cons.prems(1) by blast
  show ?case
  proof (cases "run_hooks ex (hooks_of a n) w")
    case (Ok s)
    with st Cons.IH [of s] Cons.prems(2) show ?thesis by simp
  next
    case (Threw e1 s)
    with run_hooks_Threw [where P = P and Q = Q and ex = ex, OF step thr Cons.prems(1)] Cons.prems(2)
    show ?thesis by simp
  qed
qed simp

lemma hook_weight_distinct:
  assumes "distinct ns" and zero: "\<And>n. n \<noteq> m \<Longrightarrow> sum_list (map c (hooks_of a n)) = 0"
  shows "hook_weight c a ns = (if m \<in> set ns then sum_list (map c (hooks_of a m)) else 0)"
  using assms(1)
proof (induction ns)
  case Nil
  then show ?case by (simp add: hook_weight_def)
next
  case (Cons n ns)
  have w: "hook_weight c a (n # ns) = sum_list (map c (hooks_of a n)) + hook_weight c a ns"
    by (simp add: hook_weight_def)
  show ?case
  proof (cases "n = m")
    case True
    with Cons w show ?thesis by simp
  next
    case False
    with Cons zero [OF False] w show ?thesis by simp
  qed
qed

end
