(* ===== verification/GA_Base.thy ===== *)
theory GA_Base
  imports Jovo_Core
begin

text \<open>
  The base tracker \<open>GoogleAnalytics\<close> (\<open>./GoogleAnalytics\<close>, outside \<open>src/\<close>) that the
  adapter extends, modelled from the spec's description of what the adapter consumes from
  it: a visitor record created by the initializer and mutated by \<open>set\<close>, a generic
  tracking method, a payload builder, an unhandled-event reporter, an end-reason setter,
  a user-event sender and the \<open>trackEndReasons\<close> flag.  The tracker instance \<open>this\<close> is
  the record \<open>ga_state\<close>; what it has sent to the analytics backend is the list \<open>hits\<close>,
  in sending order.

  Methods of the base that call methods a subclass overrides (\<open>this.initVisitor\<close>,
  \<open>this.sendUnhandledEvents\<close> inside \<open>track\<close>) take the instance's method table
  \<open>methods\<close>: late binding made explicit.
\<close>

record ga_config =
  trackEndReasons :: bool

text \<open>A hit sent to the backend: a page view with the visitor's parameters and the end
  reason recorded on the session, or an event with a category and an action.\<close>

datatype hit =
    Pageview "string \<rightharpoonup> jsval" "jsval option"
  | Event string string

record ga_state =
  config :: ga_config
  visitor :: "(string \<rightharpoonup> jsval) option"
  hits :: "hit list"

text \<open>The hooks the plugin family registers with the host, one constructor per bound
  method (\<open>this.m.bind(this)\<close>).\<close>

datatype ga_hook = HookSetErrorEndReason | HookSetGAObject | HookTrack

text \<open>The overridable methods of an instance.\<close>

record methods =
  m_initVisitor :: "jovo \<Rightarrow> ga_state \<Rightarrow> ga_state outcome"
  m_sendUnhandledEvents :: "jovo \<Rightarrow> ga_state \<Rightarrow> ga_state outcome"

subsection \<open>Operations of the base tracker\<close>

text \<open>\<open>initVisitor\<close> of the base: a fresh visitor record for this request.\<close>

definition initVisitor_base :: "jovo \<Rightarrow> ga_state \<Rightarrow> ga_state outcome" where
  "initVisitor_base j st = Ok (st\<lparr>visitor := Some Map.empty\<rparr>)"

text \<open>\<open>this.visitor!.set(key, value)\<close>: a \<open>TypeError\<close> when there is no visitor.\<close>

definition visitor_set :: "string \<Rightarrow> jsval \<Rightarrow> ga_state \<Rightarrow> ga_state outcome" where
  "visitor_set k v st =
     (case visitor st of
        None \<Rightarrow> Threw (TypeError ''Cannot read properties of undefined (reading 'set')'') st
      | Some m \<Rightarrow> Ok (st\<lparr>visitor := Some (m(k \<mapsto> v))\<rparr>))"

text \<open>\<open>sendUserEvent(jovo, category, action)\<close>: one event hit.\<close>

definition sendUserEvent :: "jovo \<Rightarrow> string \<Rightarrow> string \<Rightarrow> ga_state \<Rightarrow> ga_state outcome" where
  "sendUserEvent j cat act st = Ok (st\<lparr>hits := hits st @ [Event cat act]\<rparr>)"

text \<open>The generic unhandled-event reporting: one event per unhandled event of the request.\<close>

definition sendUnhandledEvents_base :: "jovo \<Rightarrow> ga_state \<Rightarrow> ga_state outcome" where
  "sendUnhandledEvents_base j st =
     Ok (st\<lparr>hits := hits st @ map (Event ''UnhandledEvents'') (unhandled_events j)\<rparr>)"

text \<open>\<open>setEndReason(jovo, endReason)\<close>: records the reason on the session.\<close>

definition setEndReason :: "jovo \<Rightarrow> jsval \<Rightarrow> jovo" where
  "setEndReason j r = j\<lparr>session_data := (session_data j)(''endReason'' \<mapsto> r)\<rparr>"

text \<open>Sending the page view: the visitor's parameters with the session's end reason.\<close>

definition send_pageview :: "jovo \<Rightarrow> ga_state \<Rightarrow> ga_state outcome" where
  "send_pageview j st =
     (case visitor st of
        None \<Rightarrow> Threw (TypeError ''Cannot read properties of undefined (reading 'pageview')'') st
      | Some m \<Rightarrow> Ok (st\<lparr>hits := hits st @ [Pageview m (session_data j ''endReason'')]\<rparr>))"

text \<open>The generic tracking logic: initialise the visitor, send the page view, report
  the unhandled events, the first and last through the instance's own methods.\<close>

definition track_base :: "methods \<Rightarrow> handle_request \<Rightarrow> ga_state \<Rightarrow> ga_state outcome" where
  "track_base M hr st =
     (case hr_jovo hr of
        None \<Rightarrow> Threw (JovoError ''Jovo object is not set'' ERR_PLUGIN ''jovo-analytics-googleanalytics'') st
      | Some j \<Rightarrow>
          seqE (m_initVisitor M j st) (\<lambda>st1.
          seqE (send_pageview j st1) (\<lambda>st2.
          m_sendUnhandledEvents M j st2)))"

text \<open>The payload builder: attaches \<open>$googleAnalytics\<close> to the Jovo object.\<close>

definition setGoogleAnalyticsObject_base :: "handle_request \<Rightarrow> handle_request outcome" where
  "setGoogleAnalyticsObject_base hr =
     (case hr_jovo hr of
        None \<Rightarrow> Threw (JovoError ''Jovo object is not set'' ERR_PLUGIN ''jovo-analytics-googleanalytics'') hr
      | Some j \<Rightarrow> Ok (hr\<lparr>hr_jovo := Some (j\<lparr>attached := insert ''$googleAnalytics'' (attached j)\<rparr>)\<rparr>))"

text \<open>\<open>install\<close> of the base: the payload builder after the platform is initialised, the
  post-handling send hook after the response.\<close>

definition install_base :: "ga_hook app \<Rightarrow> ga_hook app outcome" where
  "install_base a =
     seqE (use_strict ''after.platform.init'' HookSetGAObject a) (\<lambda>a1.
     use_strict ''after.response'' HookTrack a1)"

text \<open>The base's own method table.\<close>

definition base_methods :: methods where
  "base_methods = \<lparr>m_initVisitor = initVisitor_base, m_sendUnhandledEvents = sendUnhandledEvents_base\<rparr>"

subsection \<open>Lemmas\<close>

lemma visitor_set_Some [simp]:
  "visitor st = Some m \<Longrightarrow> visitor_set k v st = Ok (st\<lparr>visitor := Some (m(k \<mapsto> v))\<rparr>)"
  by (simp add: visitor_set_def)

lemma send_pageview_Some [simp]:
  "visitor st = Some m \<Longrightarrow>
     send_pageview j st = Ok (st\<lparr>hits := hits st @ [Pageview m (session_data j ''endReason'')]\<rparr>)"
  by (simp add: send_pageview_def)

lemmas base_ops_simps [ga_simps] =
  initVisitor_base_def sendUserEvent_def sendUnhandledEvents_base_def setEndReason_def

end
