(* ===== verification/GA_Alexa.thy ===== *)
theory GA_Alexa
  imports GA_Base
begin

text \<open>
  The adapter \<open>GoogleAnalyticsAlexa\<close> (\<open>src/jovo-integrations/jovo-analytics-googleanalytics/
  src/GoogleAnalyticsAlexa.ts\<close>), one definition per method, each with its guards and
  early returns: \<open>install\<close>, \<open>track\<close>, \<open>initVisitor\<close>, \<open>setGoogleAnalyticsObject\<close>,
  \<open>setErrorEndReason\<close>, \<open>sendUnhandledEvents\<close>.  A call \<open>super.m(...)\<close> is the base
  definition \<open>m_base\<close> of \<open>GA_Base\<close>; the adapter's method table \<open>alexa_methods\<close> is what
  the base's \<open>track\<close> calls back.  Definitions that a later one uses come first.
\<close>

subsection \<open>The adapter's methods\<close>

definition ga_plugin_name :: string where
  "ga_plugin_name = ''jovo-analytics-googleanalytics''"

text \<open>\<open>new JovoError('Jovo object is not set', ErrorCode.ERR_PLUGIN, ...)\<close>.\<close>

definition err_jovo_not_set :: js_error where
  "err_jovo_not_set = JovoError ''Jovo object is not set'' ERR_PLUGIN ga_plugin_name"

text \<open>The \<open>TypeError\<close> of \<open>request.getDeviceName()\<close> when the unchecked cast
  \<open>jovo.$request as AlexaRequest\<close> is a request of another platform.\<close>

definition err_no_device_name :: js_error where
  "err_no_device_name = TypeError ''request.getDeviceName is not a function''"

text \<open>The \<open>TypeError\<close> of \<open>jovo.$alexaSkill!.getEndReason()\<close> on a Jovo object without
  Alexa sub-object.\<close>

definition err_no_alexa_skill :: js_error where
  "err_no_alexa_skill = TypeError ''Cannot read properties of undefined (reading 'getEndReason')''"

text \<open>\<open>install(app)\<close>: the end-reason hook on \<open>after.handler\<close> (if that middleware exists),
  then the base's installation.\<close>

definition install :: "ga_hook app \<Rightarrow> ga_hook app outcome" where
  "install a = install_base (use_opt ''after.handler'' HookSetErrorEndReason a)"

text \<open>The fixed part of the fake user agent, and the template literal that embeds the
  device name.\<close>

definition ua_suffix :: string where
  "ua_suffix = '' (Linux;Android 5.1.1) ExoPlayerLib/1.5.9''"

definition user_agent_override :: "jsval \<Rightarrow> string" where
  "user_agent_override deviceInfo = js_to_string deviceInfo @ ua_suffix"

text \<open>\<open>_get(request, 'request.metadata.referrer')\<close>.\<close>

definition get_referrer :: "jsval \<Rightarrow> jsval" where
  "get_referrer body = lodash_get body ''request.metadata.referrer''"

text \<open>
  \<open>initVisitor(jovo)\<close>.  The cast \<open>jovo.$request as AlexaRequest\<close> checks nothing; on
  another platform's request \<open>request.getDeviceName\<close> is not a function.
\<close>

definition initVisitor :: "jovo \<Rightarrow> ga_state \<Rightarrow> ga_state outcome" where
  "initVisitor j st =
     seqE (initVisitor_base j st) (\<lambda>st1.
     (case request j of
        OtherReq _ \<Rightarrow> Threw err_no_device_name st1
      | AlexaReq r \<Rightarrow>
          (let deviceInfo = ar_device_name r in
           seqE (visitor_set ''screenResolution'' (ar_screen_resolution r) st1) (\<lambda>st2.
           seqE (visitor_set ''userAgentOverride'' (JStr (user_agent_override deviceInfo)) st2) (\<lambda>st3.
           (let referrer = get_referrer (ar_body r) in
            if js_truthy referrer then
              seqE (visitor_set ''campaignMedium'' (JStr ''referral'') st3) (\<lambda>st4.
              seqE (visitor_set ''campaignSource'' referrer st4) (\<lambda>st5.
              visitor_set ''documentReferrer'' referrer st5))
            else Ok st3))))))"

text \<open>
  \<open>sendUnhandledEvents(jovo)\<close>: the base's reporting, then the flow-error event.  The
  assertion \<open>jovo.$alexaSkill!\<close> throws a \<open>TypeError\<close> when there is no Alexa
  sub-object, after the base has already sent its events.
\<close>

definition sendUnhandledEvents :: "jovo \<Rightarrow> ga_state \<Rightarrow> ga_state outcome" where
  "sendUnhandledEvents j st =
     seqE (sendUnhandledEvents_base j st) (\<lambda>st1.
     (case alexa_skill j of
        None \<Rightarrow> Threw err_no_alexa_skill st1
      | Some a \<Rightarrow>
          if as_end_reason a = JStr ''EXCEEDED_MAX_REPROMPTS''
          then sendUserEvent j ''FlowError'' ''Exceeded_Max_Reprompts'' st1
          else Ok st1))"

text \<open>The method table of a \<open>GoogleAnalyticsAlexa\<close> instance.\<close>

definition alexa_methods :: methods where
  "alexa_methods = \<lparr>m_initVisitor = initVisitor, m_sendUnhandledEvents = sendUnhandledEvents\<rparr>"

text \<open>\<open>track(handleRequest)\<close>.\<close>

definition track :: "handle_request \<Rightarrow> ga_state \<Rightarrow> ga_state outcome" where
  "track hr st =
     (case hr_jovo hr of
        None \<Rightarrow> Threw err_jovo_not_set st
      | Some j \<Rightarrow>
          if constructor_name j \<noteq> ''AlexaSkill'' then Ok st
          else track_base alexa_methods hr st)"

text \<open>\<open>setGoogleAnalyticsObject(handleRequest)\<close>: the same guards as \<open>track\<close>.\<close>

definition setGoogleAnalyticsObject :: "handle_request \<Rightarrow> handle_request outcome" where
  "setGoogleAnalyticsObject hr =
     (case hr_jovo hr of
        None \<Rightarrow> Threw err_jovo_not_set hr
      | Some j \<Rightarrow>
          if constructor_name j \<noteq> ''AlexaSkill'' then Ok hr
          else setGoogleAnalyticsObject_base hr)"

text \<open>\<open>jovo?.$alexaSkill?.getEndReason()\<close>: \<open>undefined\<close> when either link is missing.\<close>

definition get_end_reason :: "handle_request \<Rightarrow> jsval" where
  "get_end_reason hr =
     (case hr_jovo hr of
        None \<Rightarrow> JUndef
      | Some j \<Rightarrow> (case alexa_skill j of None \<Rightarrow> JUndef | Some a \<Rightarrow> as_end_reason a))"

text \<open>
  \<open>setErrorEndReason(handleRequest)\<close>; it reads the flag of the instance \<open>st\<close>.  The
  \<open>jovo!\<close> passed to \<open>setEndReason\<close> is \<open>undefined\<close> only when no reason was read, so
  the throwing branch is never taken (claim C7).
\<close>

definition setErrorEndReason :: "ga_state \<Rightarrow> handle_request \<Rightarrow> handle_request outcome" where
  "setErrorEndReason st hr =
     (let endReason = get_end_reason hr in
      if trackEndReasons (config st) \<and> js_truthy endReason then
        (case hr_jovo hr of
           None \<Rightarrow> Threw (TypeError ''Cannot read properties of undefined (reading '$session')'') hr
         | Some j \<Rightarrow> Ok (hr\<lparr>hr_jovo := Some (setEndReason j endReason)\<rparr>))
      else Ok hr)"

subsection \<open>Specification functions and sample objects\<close>

text \<open>The visitor record \<open>initVisitor\<close> builds for an Alexa request: the two fields it
  always sets, and the three campaign fields when the referrer is truthy.\<close>

definition alexa_visitor :: "alexa_request \<Rightarrow> (string \<rightharpoonup> jsval)" where
  "alexa_visitor r =
     (let m0 = [''screenResolution'' \<mapsto> ar_screen_resolution r,
                ''userAgentOverride'' \<mapsto> JStr (user_agent_override (ar_device_name r))];
          ref = get_referrer (ar_body r)
      in if js_truthy ref
         then m0(''campaignMedium'' \<mapsto> JStr ''referral'', ''campaignSource'' \<mapsto> ref,
                 ''documentReferrer'' \<mapsto> ref)
         else m0)"

text \<open>The extra hit \<open>sendUnhandledEvents\<close> sends for an end reason.\<close>

definition flow_error_hits :: "jsval \<Rightarrow> hit list" where
  "flow_error_hits r =
     (if r = JStr ''EXCEEDED_MAX_REPROMPTS'' then [Event ''FlowError'' ''Exceeded_Max_Reprompts''] else [])"

text \<open>Sample objects: an Echo Dot request without referrer metadata (the spec's example)
  and with one, an Alexa Jovo object for a request, a Jovo object of another platform.\<close>

definition echo_dot_request :: alexa_request where
  "echo_dot_request = \<lparr>ar_body = JObj [(''request'', JObj [(''type'', JStr ''LaunchRequest'')])],
     ar_device_name = JStr ''Echo Dot'', ar_screen_resolution = JStr ''1024x600''\<rparr>"

definition referred_request :: alexa_request where
  "referred_request = \<lparr>ar_body = JObj [(''request'', JObj [(''metadata'',
        JObj [(''referrer'', JStr ''amzn1.skill.sample'')])])],
     ar_device_name = JStr ''Echo Show'', ar_screen_resolution = JStr ''1280x800''\<rparr>"

definition alexa_jovo :: "alexa_request \<Rightarrow> jsval \<Rightarrow> jovo" where
  "alexa_jovo r reason = \<lparr>ctor_name = ''AlexaSkill'', ancestors = [''Jovo''], request = AlexaReq r,
     alexa_skill = Some \<lparr>as_end_reason = reason\<rparr>, session_data = Map.empty, attached = {},
     unhandled_events = []\<rparr>"

definition other_jovo :: jovo where
  "other_jovo = \<lparr>ctor_name = ''GoogleAction'', ancestors = [''Jovo''], request = OtherReq (JObj []),
     alexa_skill = None, session_data = Map.empty, attached = {}, unhandled_events = []\<rparr>"

definition initial_ga :: "bool \<Rightarrow> ga_state" where
  "initial_ga flag = \<lparr>config = \<lparr>trackEndReasons = flag\<rparr>, visitor = None, hits = []\<rparr>"

text \<open>An application with the middlewares the plugin registers with, in the order the
  host runs them.\<close>

definition sample_app :: "ga_hook app" where
  "sample_app = \<lparr>middlewares = [''after.platform.init'' \<mapsto> [], ''handler'' \<mapsto> [],
       ''after.handler'' \<mapsto> [], ''response'' \<mapsto> [], ''after.response'' \<mapsto> []],
     mw_order = [''after.platform.init'', ''handler'', ''after.handler'', ''response'', ''after.response'']\<rparr>"

subsection \<open>Characteristic equations\<close>

lemma track_no_jovo [ga_simps]: "hr_jovo hr = None \<Longrightarrow> track hr st = Threw err_jovo_not_set st"
  by (simp add: track_def)

lemma track_not_alexa [ga_simps]:
  "hr_jovo hr = Some j \<Longrightarrow> constructor_name j \<noteq> ''AlexaSkill'' \<Longrightarrow> track hr st = Ok st"
  by (simp add: track_def)

lemma track_alexa [ga_simps]:
  "hr_jovo hr = Some j \<Longrightarrow> constructor_name j = ''AlexaSkill'' \<Longrightarrow>
     track hr st = seqE (initVisitor j st) (\<lambda>st1. seqE (send_pageview j st1) (sendUnhandledEvents j))"
  by (simp add: track_def track_base_def alexa_methods_def)

lemma initVisitor_AlexaReq [ga_simps]:
  "request j = AlexaReq r \<Longrightarrow> initVisitor j st = Ok (st\<lparr>visitor := Some (alexa_visitor r)\<rparr>)"
  by (simp add: initVisitor_def initVisitor_base_def alexa_visitor_def Let_def)

lemma initVisitor_OtherReq [ga_simps]:
  "request j = OtherReq x \<Longrightarrow>
     initVisitor j st = Threw err_no_device_name (st\<lparr>visitor := Some Map.empty\<rparr>)"
  by (simp add: initVisitor_def initVisitor_base_def)

lemma sendUnhandledEvents_Some [ga_simps]:
  "alexa_skill j = Some a \<Longrightarrow>
     sendUnhandledEvents j st =
       Ok (st\<lparr>hits := hits st @ map (Event ''UnhandledEvents'') (unhandled_events j)
                       @ flow_error_hits (as_end_reason a)\<rparr>)"
  by (simp add: sendUnhandledEvents_def sendUnhandledEvents_base_def sendUserEvent_def flow_error_hits_def)

lemma sendUnhandledEvents_None [ga_simps]:
  "alexa_skill j = None \<Longrightarrow>
     sendUnhandledEvents j st =
       Threw err_no_alexa_skill
         (st\<lparr>hits := hits st @ map (Event ''UnhandledEvents'') (unhandled_events j)\<rparr>)"
  by (simp add: sendUnhandledEvents_def sendUnhandledEvents_base_def)

lemma dom_alexa_visitor:
  "dom (alexa_visitor r) =
     {''screenResolution'', ''userAgentOverride''} \<union>
     (if js_truthy (get_referrer (ar_body r))
      then {''campaignMedium'', ''campaignSource'', ''documentReferrer''} else {})"
  by (auto simp: alexa_visitor_def Let_def)

subsection \<open>Properties of the adapter\<close>

text \<open>C1: \<open>track\<close> on a request without a Jovo object throws the plugin error
  \<open>'Jovo object is not set'\<close> with code \<open>ERR_PLUGIN\<close> and the plugin's name, and sends
  nothing (the tracker state is unchanged, the base is not called).\<close>

theorem track_missing_jovo:
  assumes "hr_jovo hr = None"
  shows "track hr st =
           Threw (JovoError ''Jovo object is not set'' ERR_PLUGIN ''jovo-analytics-googleanalytics'') st"
  using assms by (simp add: track_def err_jovo_not_set_def ga_plugin_name_def)

theorem track_missing_jovo_witness:
  "track \<lparr>hr_jovo = None\<rparr> (initial_ga True) =
     Threw (JovoError ''Jovo object is not set'' ERR_PLUGIN ''jovo-analytics-googleanalytics'') (initial_ga True)"
  using track_missing_jovo [of "\<lparr>hr_jovo = None\<rparr>" "initial_ga True"] by simp

text \<open>C2: on a Jovo object whose class is not \<open>AlexaSkill\<close>, \<open>track\<close> returns without
  sending any hit and without touching the visitor.\<close>

theorem track_other_platform_noop:
  assumes "hr_jovo hr = Some j" and "constructor_name j \<noteq> ''AlexaSkill''"
  shows "track hr st = Ok st"
  using assms by (simp add: track_def)

theorem track_other_platform_noop_witness:
  "constructor_name other_jovo \<noteq> ''AlexaSkill'' \<and>
   track \<lparr>hr_jovo = Some other_jovo\<rparr> (initial_ga True) = Ok (initial_ga True)"
proof -
  have c: "constructor_name other_jovo \<noteq> ''AlexaSkill''"
    by (simp add: constructor_name_def other_jovo_def)
  show ?thesis
    using c track_other_platform_noop [of "\<lparr>hr_jovo = Some other_jovo\<rparr>" other_jovo] by simp
qed

text \<open>C3: on an Alexa request, \<open>track\<close> builds the Alexa visitor record, sends the page
  view with it and the session's end reason, then the base's unhandled events, then the
  flow-error event when the end reason is \<open>EXCEEDED_MAX_REPROMPTS\<close>, in this order.\<close>

theorem track_alexa_hits:
  assumes "hr_jovo hr = Some j" and "constructor_name j = ''AlexaSkill''"
    and "request j = AlexaReq r" and "alexa_skill j = Some a"
  shows "track hr st =
           Ok (st\<lparr>visitor := Some (alexa_visitor r),
                  hits := hits st @ [Pageview (alexa_visitor r) (session_data j ''endReason'')]
                          @ map (Event ''UnhandledEvents'') (unhandled_events j)
                          @ flow_error_hits (as_end_reason a)\<rparr>)"
  using assms by (simp add: ga_simps)

theorem track_alexa_hits_witness:
  "track \<lparr>hr_jovo = Some (alexa_jovo echo_dot_request (JStr ''EXCEEDED_MAX_REPROMPTS''))\<rparr> (initial_ga True) =
     Ok ((initial_ga True)\<lparr>visitor := Some (alexa_visitor echo_dot_request),
        hits := [Pageview (alexa_visitor echo_dot_request) None,
                 Event ''FlowError'' ''Exceeded_Max_Reprompts'']\<rparr>)"
  using track_alexa_hits [of "\<lparr>hr_jovo = Some (alexa_jovo echo_dot_request (JStr ''EXCEEDED_MAX_REPROMPTS''))\<rparr>"
      "alexa_jovo echo_dot_request (JStr ''EXCEEDED_MAX_REPROMPTS'')" echo_dot_request
      "\<lparr>as_end_reason = JStr ''EXCEEDED_MAX_REPROMPTS''\<rparr>" "initial_ga True"]
  by (simp add: alexa_jovo_def constructor_name_def initial_ga_def flow_error_hits_def)


lemma middleware_use_opt:
  "middleware n (use_opt name h a) =
     (if n = name then map_option (\<lambda>hs. hs @ [h]) (middleware name a) else middleware n a)"
  by (auto simp: use_opt_def middleware_def split: option.split)

lemma use_strict_Ok_order:
  "use_strict name h a = Ok a' \<Longrightarrow> mw_order a' = mw_order a"
  using use_strict_mw_order [of name h a] by simp

lemma middleware_use_strict_Ok:
  "use_strict name h a = Ok a' \<Longrightarrow> n \<noteq> name \<Longrightarrow> middleware n a' = middleware n a"
  by (auto simp: use_strict_def middleware_def split: option.splits)

lemma install_base_Ok:
  assumes "install_base a = Ok a'"
  shows "hooks_of a' n = hooks_of a n @ (if n = ''after.platform.init'' then [HookSetGAObject] else [])
                                      @ (if n = ''after.response'' then [HookTrack] else [])
         \<and> mw_order a' = mw_order a"
proof -
  obtain a1 where u1: "use_strict ''after.platform.init'' HookSetGAObject a = Ok a1"
    and u2: "use_strict ''after.response'' HookTrack a1 = Ok a'"
    using assms by (auto simp: install_base_def seqE_eq_Ok_iff)
  have "''after.response'' \<noteq> ''after.platform.init''" by simp
  then show ?thesis
    using use_strict_Ok_hooks [OF u1, of n] use_strict_Ok_hooks [OF u2, of n]
      use_strict_Ok_order [OF u1] use_strict_Ok_order [OF u2]
    by (cases "n = ''after.response''") auto
qed

lemma install_base_Threw_iff:
  "(\<exists>e a'. install_base a = Threw e a') \<longleftrightarrow>
     middleware ''after.platform.init'' a = None \<or> middleware ''after.response'' a = None"
proof (cases "use_strict ''after.platform.init'' HookSetGAObject a")
  case (Ok a1)
  have "middleware ''after.response'' a1 = middleware ''after.response'' a"
    using middleware_use_strict_Ok [OF Ok] by simp
  moreover have "middleware ''after.platform.init'' a \<noteq> None"
    using Ok by (auto simp: use_strict_def split: option.splits)
  ultimately show ?thesis
    using Ok by (auto simp: install_base_def use_strict_def split: option.splits)
next
  case (Threw e a1)
  then show ?thesis
    by (auto simp: install_base_def use_strict_def split: option.splits)
qed

text \<open>C4: for an Alexa request, \<open>initVisitor\<close> always sets \<open>screenResolution\<close> to what
  \<open>getScreenResolution()\<close> returns and \<open>userAgentOverride\<close> to the device name followed by
  the fixed Android/ExoPlayer suffix.\<close>

theorem initVisitor_always_sets:
  assumes "request j = AlexaReq r"
  shows "\<exists>m. initVisitor j st = Ok (st\<lparr>visitor := Some m\<rparr>) \<and>
             m ''screenResolution'' = Some (ar_screen_resolution r) \<and>
             m ''userAgentOverride'' =
               Some (JStr (js_to_string (ar_device_name r) @ '' (Linux;Android 5.1.1) ExoPlayerLib/1.5.9''))"
proof -
  have "initVisitor j st = Ok (st\<lparr>visitor := Some (alexa_visitor r)\<rparr>)"
    using assms by (simp add: ga_simps)
  moreover have "alexa_visitor r ''screenResolution'' = Some (ar_screen_resolution r)"
    and "alexa_visitor r ''userAgentOverride'' =
           Some (JStr (js_to_string (ar_device_name r) @ '' (Linux;Android 5.1.1) ExoPlayerLib/1.5.9''))"
    by (simp_all add: alexa_visitor_def Let_def user_agent_override_def ua_suffix_def)
  ultimately show ?thesis by blast
qed

theorem initVisitor_always_sets_witness:
  "\<exists>m. initVisitor (alexa_jovo echo_dot_request JUndef) (initial_ga True) =
         Ok ((initial_ga True)\<lparr>visitor := Some m\<rparr>) \<and>
       m ''screenResolution'' = Some (JStr ''1024x600'') \<and>
       m ''userAgentOverride'' = Some (JStr ''Echo Dot (Linux;Android 5.1.1) ExoPlayerLib/1.5.9'')"
  using initVisitor_always_sets [of "alexa_jovo echo_dot_request JUndef" echo_dot_request "initial_ga True"]
  by (simp add: alexa_jovo_def echo_dot_request_def)

text \<open>C5: \<open>initVisitor\<close> sets exactly \<open>screenResolution\<close> and \<open>userAgentOverride\<close>, plus
  \<open>campaignMedium = 'referral'\<close>, \<open>campaignSource\<close> and \<open>documentReferrer\<close> (both the
  referrer) if and only if \<open>request.metadata.referrer\<close> is truthy (a finding: referrer
  metadata that is present but the empty string is falsy, so no campaign field is set for
  it, though the spec sets them iff the metadata is present).\<close>

theorem initVisitor_campaign_iff:
  assumes "request j = AlexaReq r" and "initVisitor j st = Ok st'"
  shows "\<exists>m. visitor st' = Some m \<and>
           dom m = {''screenResolution'', ''userAgentOverride''} \<union>
             (if js_truthy (get_referrer (ar_body r))
              then {''campaignMedium'', ''campaignSource'', ''documentReferrer''} else {}) \<and>
           (js_truthy (get_referrer (ar_body r)) \<longrightarrow>
              m ''campaignMedium'' = Some (JStr ''referral'') \<and>
              m ''campaignSource'' = Some (get_referrer (ar_body r)) \<and>
              m ''documentReferrer'' = Some (get_referrer (ar_body r)))"
proof -
  from assms have "visitor st' = Some (alexa_visitor r)"
    by (auto simp: ga_simps)
  moreover have "js_truthy (get_referrer (ar_body r)) \<longrightarrow>
              alexa_visitor r ''campaignMedium'' = Some (JStr ''referral'') \<and>
              alexa_visitor r ''campaignSource'' = Some (get_referrer (ar_body r)) \<and>
              alexa_visitor r ''documentReferrer'' = Some (get_referrer (ar_body r))"
    by (simp add: alexa_visitor_def Let_def)
  ultimately show ?thesis
    by (simp add: dom_alexa_visitor)
qed

theorem initVisitor_campaign_iff_witness:
  "visitor (state_of (initVisitor (alexa_jovo referred_request JUndef) (initial_ga True)))
     = Some (alexa_visitor referred_request) \<and>
   dom (alexa_visitor referred_request) =
     {''screenResolution'', ''userAgentOverride'', ''campaignMedium'', ''campaignSource'', ''documentReferrer''}"
proof -
  have req: "request (alexa_jovo referred_request JUndef) = AlexaReq referred_request"
    by (simp add: alexa_jovo_def)
  have ok: "initVisitor (alexa_jovo referred_request JUndef) (initial_ga True) =
              Ok ((initial_ga True)\<lparr>visitor := Some (alexa_visitor referred_request)\<rparr>)"
    using req by (simp add: ga_simps)
  have ref: "js_truthy (get_referrer (ar_body referred_request))"
    by (simp add: referred_request_def get_referrer_def lodash_get_def cast_path_def base_get_walk)
  from initVisitor_campaign_iff [OF req ok] ref ok show ?thesis
    by auto
qed

text \<open>C6: \<open>setGoogleAnalyticsObject\<close> throws the plugin error when there is no Jovo
  object, leaves a non-Alexa Jovo object untouched, and otherwise attaches the base's
  \<open>$googleAnalytics\<close> object.\<close>

theorem setGoogleAnalyticsObject_cases:
  "setGoogleAnalyticsObject hr =
     (case hr_jovo hr of
        None \<Rightarrow> Threw (JovoError ''Jovo object is not set'' ERR_PLUGIN ''jovo-analytics-googleanalytics'') hr
      | Some j \<Rightarrow>
          Ok (if constructor_name j = ''AlexaSkill''
              then hr\<lparr>hr_jovo := Some (j\<lparr>attached := insert ''$googleAnalytics'' (attached j)\<rparr>)\<rparr>
              else hr))"
  by (simp add: setGoogleAnalyticsObject_def setGoogleAnalyticsObject_base_def err_jovo_not_set_def
      ga_plugin_name_def split: option.split)

text \<open>C7: \<open>setErrorEndReason\<close> never throws; it records the end reason on the session
  if and only if \<open>trackEndReasons\<close> is set and the reason read through
  \<open>jovo?.$alexaSkill?.getEndReason()\<close> is truthy, and otherwise changes nothing.\<close>

theorem setErrorEndReason_spec:
  "setErrorEndReason st hr =
     Ok (if trackEndReasons (config st) \<and> js_truthy (get_end_reason hr)
         then hr\<lparr>hr_jovo := map_option (\<lambda>j. j\<lparr>session_data := (session_data j)(''endReason'' \<mapsto> get_end_reason hr)\<rparr>) (hr_jovo hr)\<rparr>
         else hr)"
  by (cases "hr_jovo hr") (simp_all add: setErrorEndReason_def get_end_reason_def setEndReason_def Let_def)

text \<open>C8: \<open>sendUnhandledEvents\<close> on an Alexa Jovo object sends the base's events and then
  the \<open>FlowError\<close>/\<open>Exceeded_Max_Reprompts\<close> event exactly when the end reason is the
  string \<open>EXCEEDED_MAX_REPROMPTS\<close>.\<close>

theorem sendUnhandledEvents_flow_error:
  assumes "alexa_skill j = Some a"
  shows "sendUnhandledEvents j st =
           Ok (st\<lparr>hits := hits st @ map (Event ''UnhandledEvents'') (unhandled_events j) @
                    (if as_end_reason a = JStr ''EXCEEDED_MAX_REPROMPTS''
                     then [Event ''FlowError'' ''Exceeded_Max_Reprompts''] else [])\<rparr>)"
  using assms by (simp add: sendUnhandledEvents_def sendUnhandledEvents_base_def sendUserEvent_def)

theorem sendUnhandledEvents_flow_error_witness:
  "sendUnhandledEvents (alexa_jovo echo_dot_request (JStr ''USER_INITIATED'')) (initial_ga True) = Ok (initial_ga True)"
  using sendUnhandledEvents_flow_error [of "alexa_jovo echo_dot_request (JStr ''USER_INITIATED'')"
      "\<lparr>as_end_reason = JStr ''USER_INITIATED''\<rparr>" "initial_ga True"]
  by (simp add: alexa_jovo_def initial_ga_def)

text \<open>C9: \<open>install\<close> appends the end-reason hook to \<open>after.handler\<close> (when the middleware
  exists) before the base registers its hooks, and the base's hooks go after any hook already
  registered; the run order of the middlewares is unchanged.  It throws exactly when one of
  the base's middlewares is missing: a missing \<open>after.handler\<close> is skipped silently
  (\<open>?.use\<close>), never an error.\<close>

theorem install_hooks:
  "(install a = Ok a' \<longrightarrow>
      hooks_of a' ''after.handler'' =
        hooks_of a ''after.handler'' @
          (if middleware ''after.handler'' a = None then [] else [HookSetErrorEndReason]) \<and>
      hooks_of a' ''after.platform.init'' = hooks_of a ''after.platform.init'' @ [HookSetGAObject] \<and>
      hooks_of a' ''after.response'' = hooks_of a ''after.response'' @ [HookTrack] \<and>
      mw_order a' = mw_order a) \<and>
   ((\<exists>e a''. install a = Threw e a'') \<longleftrightarrow>
      middleware ''after.platform.init'' a = None \<or> middleware ''after.response'' a = None)"
  apply (rule conjI, rule impI)
  subgoal
    using install_base_Ok [of "use_opt ''after.handler'' HookSetErrorEndReason a" a']
    by (simp add: install_def hooks_of_use_opt middleware_use_opt)
  subgoal
    using install_base_Threw_iff [of "use_opt ''after.handler'' HookSetErrorEndReason a"]
    by (simp add: install_def middleware_use_opt)
  done

theorem install_hooks_witness:
  "\<exists>a'. install sample_app = Ok a' \<and> hooks_of a' ''after.handler'' = [HookSetErrorEndReason] \<and>
        hooks_of a' ''after.platform.init'' = [HookSetGAObject] \<and>
        hooks_of a' ''after.response'' = [HookTrack]"
proof -
  obtain a' where ok: "install sample_app = Ok a'"
    by (auto simp: install_def install_base_def use_opt_def use_strict_def middleware_def sample_app_def)
  show ?thesis
    using install_hooks [of sample_app a'] ok by (simp add: hooks_of_def middleware_def sample_app_def)
qed

end
