(* ===== verification/GA_Pipeline.thy ===== *)
theory GA_Pipeline
  imports GA_Alexa
begin

text \<open>
  Requests through the host: the hooks the plugin registers, bound to the adapter
  instance (\<open>run_hook\<close>), run by the host's middleware loop on the world
  \<open>ga_state \<times> handle_request\<close>.  The tracker instance outlives a request, so its state
  after a sequence of requests is the reachable set \<open>served\<close>, an inductive relation whose
  invariant \<open>ga_inv\<close> says what the adapter can have stored and sent.  The lemmas give the
  shape of the state after one \<open>track\<close>, the per-hook facts (the instance unchanged by
  every hook but \<open>track\<close>, hits only appended, at most one page view and one flow-error
  event per \<open>track\<close>), and lift them to whole runs with the generic run lemmas of
  \<open>Jovo_Core\<close>.
\<close>

subsection \<open>Hooks bound to the adapter instance\<close>

text \<open>\<open>this.m.bind(this)\<close>: each registered hook runs the adapter's (overriding) method on
  the tracker instance and the request.\<close>

type_synonym world = "ga_state \<times> handle_request"

fun run_hook :: "ga_hook \<Rightarrow> world \<Rightarrow> world outcome" where
  "run_hook HookSetErrorEndReason (st, hr) = map_outcome (\<lambda>hr'. (st, hr')) (setErrorEndReason st hr)"
| "run_hook HookSetGAObject (st, hr) = map_outcome (\<lambda>hr'. (st, hr')) (setGoogleAnalyticsObject hr)"
| "run_hook HookTrack (st, hr) = map_outcome (\<lambda>st'. (st', hr)) (track hr st)"


subsection \<open>The tracker across requests\<close>

text \<open>A hit the adapter can have sent: a page view of an Alexa visitor record, a base
  unhandled event, or the flow-error event.\<close>

fun adapter_hit :: "hit \<Rightarrow> bool" where
  "adapter_hit (Pageview m r) = (\<exists>ar. m = alexa_visitor ar)"
| "adapter_hit (Event c act) =
     (c = ''UnhandledEvents'' \<or> (c = ''FlowError'' \<and> act = ''Exceeded_Max_Reprompts''))"

text \<open>The invariant of the instance: its configuration never changes; its visitor is
  absent, fresh (when the request was not an Alexa request), or an Alexa visitor record;
  every hit it sent is an adapter hit.\<close>

definition ga_inv :: "ga_config \<Rightarrow> ga_state \<Rightarrow> bool" where
  "ga_inv cfg st \<longleftrightarrow>
     config st = cfg \<and>
     (visitor st = None \<or> visitor st = Some Map.empty \<or> (\<exists>r. visitor st = Some (alexa_visitor r))) \<and>
     (\<forall>h \<in> set (hits st). adapter_hit h)"

definition ga_initial :: "ga_config \<Rightarrow> ga_state" where
  "ga_initial cfg = \<lparr>config = cfg, visitor = None, hits = []\<rparr>"

text \<open>The states of the instance after any sequence of requests, each handled by the
  application's middlewares to completion or to a throw.\<close>

inductive served :: "ga_hook app \<Rightarrow> ga_config \<Rightarrow> ga_state \<Rightarrow> bool" for a cfg where
  start: "served a cfg (ga_initial cfg)"
| request: "served a cfg st \<Longrightarrow> served a cfg (fst (state_of (handle run_hook a (st, hr))))"

fun is_pageview :: "hit \<Rightarrow> bool" where
  "is_pageview (Pageview m r) = True"
| "is_pageview (Event c act) = False"

definition flow_error_event :: hit where
  "flow_error_event = Event ''FlowError'' ''Exceeded_Max_Reprompts''"

definition pageviews :: "hit list \<Rightarrow> nat" where
  "pageviews hs = length (filter is_pageview hs)"

definition flow_errors :: "hit list \<Rightarrow> nat" where
  "flow_errors hs = count_list hs flow_error_event"

text \<open>The hits one successful \<open>track\<close> of an Alexa request appends: the page view, the
  base's unhandled events, and the flow-error event when \<open>b\<close>.\<close>

definition alexa_track_hits :: "alexa_request \<Rightarrow> jovo \<Rightarrow> bool \<Rightarrow> hit list" where
  "alexa_track_hits r j b =
     Pageview (alexa_visitor r) (session_data j ''endReason'') #
     map (Event ''UnhandledEvents'') (unhandled_events j) @ (if b then [flow_error_event] else [])"

definition track_weight :: "ga_hook \<Rightarrow> nat" where
  "track_weight h = (if h = HookTrack then 1 else 0)"

text \<open>An application whose middlewares have no hooks yet (before any plugin is installed),
  and the sample application with \<open>after.response\<close> run before \<open>after.handler\<close>.\<close>

definition fresh_app :: "'h app \<Rightarrow> bool" where
  "fresh_app a \<longleftrightarrow> (\<forall>n. hooks_of a n = [])"

definition reversed_app :: "ga_hook app" where
  "reversed_app = sample_app\<lparr>mw_order :=
     [''after.platform.init'', ''handler'', ''response'', ''after.response'', ''after.handler'']\<rparr>"

subsection \<open>Lemmas\<close>

lemma wf_jovo_AlexaSkill:
  assumes "wf_jovo j" and "constructor_name j = ''AlexaSkill''"
  obtains r a where "request j = AlexaReq r" and "alexa_skill j = Some a"
  using assms by (auto simp: wf_jovo_def instance_of_def constructor_name_def)

lemma wf_jovo_not_Alexa:
  assumes "wf_jovo j" and "\<not> instance_of ''AlexaSkill'' j"
  shows "alexa_skill j = None" and "constructor_name j \<noteq> ''AlexaSkill''"
  using assms by (auto simp: wf_jovo_def instance_of_def constructor_name_def)

lemma wf_alexa_jovo: "wf_jovo (alexa_jovo r x)"
  by (simp add: wf_jovo_def instance_of_def alexa_jovo_def)

lemma wf_other_jovo: "wf_jovo other_jovo" and other_jovo_not_Alexa: "\<not> instance_of ''AlexaSkill'' other_jovo"
  by (simp_all add: wf_jovo_def instance_of_def other_jovo_def)

lemma installed_sample_app:
  assumes "install sample_app = Ok a"
  shows "mw_order a = [''after.platform.init'', ''handler'', ''after.handler'', ''response'', ''after.response'']
    \<and> hooks_of a ''after.platform.init'' = [HookSetGAObject] \<and> hooks_of a ''handler'' = []
    \<and> hooks_of a ''after.handler'' = [HookSetErrorEndReason] \<and> hooks_of a ''response'' = []
    \<and> hooks_of a ''after.response'' = [HookTrack]"
proof -
  let ?a0 = "use_opt ''after.handler'' HookSetErrorEndReason sample_app"
  from assms have ok: "install_base ?a0 = Ok a" by (simp add: install_def)
  have m: "middleware ''after.handler'' sample_app = Some []"
    by (simp add: middleware_def sample_app_def)
  have h: "hooks_of sample_app n = []" for n
    by (simp add: hooks_of_def middleware_def sample_app_def split: option.split)
  show ?thesis
    using install_base_Ok [OF ok, of "''after.platform.init''"] install_base_Ok [OF ok, of "''handler''"]
      install_base_Ok [OF ok, of "''after.handler''"] install_base_Ok [OF ok, of "''response''"]
      install_base_Ok [OF ok, of "''after.response''"] m h
    by (simp add: hooks_of_use_opt sample_app_def)
qed

lemma install_sample_app_Ok: "\<exists>a. install sample_app = Ok a"
  by (auto simp: install_def install_base_def use_opt_def use_strict_def middleware_def sample_app_def)

lemmas pipeline_unfold =
  handle_def setGoogleAnalyticsObject_def setGoogleAnalyticsObject_base_def setErrorEndReason_def
  get_end_reason_def setEndReason_def track_def track_base_def alexa_methods_def


lemma track_state_cases:
  obtains (same) "state_of (track hr st) = st"
  | (fresh) "state_of (track hr st) = st\<lparr>visitor := Some Map.empty\<rparr>"
  | (sent) r j b where
      "state_of (track hr st) = st\<lparr>visitor := Some (alexa_visitor r), hits := hits st @ alexa_track_hits r j b\<rparr>"
proof (cases "hr_jovo hr")
  case None
  then show ?thesis by (intro same) (simp add: ga_simps)
next
  case (Some j)
  show ?thesis
  proof (cases "constructor_name j = ''AlexaSkill''")
    case False
    with Some show ?thesis by (intro same) (simp add: ga_simps)
  next
    case True
    show ?thesis
    proof (cases "request j")
      case (OtherReq x)
      with Some True show ?thesis by (intro fresh) (simp add: ga_simps)
    next
      case (AlexaReq r)
      show ?thesis
      proof (cases "alexa_skill j")
        case None
        with Some True AlexaReq show ?thesis
          by (intro sent [of r j False]) (simp add: ga_simps alexa_track_hits_def)
      next
        case Some': (Some a)
        with Some True AlexaReq show ?thesis
          by (intro sent [of r j "as_end_reason a = JStr ''EXCEEDED_MAX_REPROMPTS''"])
             (simp add: ga_simps alexa_track_hits_def flow_error_hits_def flow_error_event_def)
      qed
    qed
  qed
qed

lemma count_unhandled_flow_error [simp]:
  "count_list (map (Event ''UnhandledEvents'') xs) flow_error_event = 0"
  by (induction xs) (simp_all add: flow_error_event_def)

lemma pageview_not_flow_error [simp]: "Pageview m r \<noteq> flow_error_event"
  by (simp add: flow_error_event_def)

lemma alexa_track_hits_pageviews: "pageviews (alexa_track_hits r j b) = 1"
  by (simp add: alexa_track_hits_def pageviews_def flow_error_event_def filter_empty_conv)

lemma alexa_track_hits_flow_errors: "flow_errors (alexa_track_hits r j b) \<le> 1"
  by (simp add: alexa_track_hits_def flow_errors_def)

lemma alexa_track_hits_adapter: "\<forall>h \<in> set (alexa_track_hits r j b). adapter_hit h"
  by (auto simp: alexa_track_hits_def flow_error_event_def)

lemma run_hook_instance:
  "h \<noteq> HookTrack \<Longrightarrow> fst (state_of (run_hook h (st, hr))) = st"
  by (cases h) simp_all

lemma run_hook_track_instance:
  "fst (state_of (run_hook HookTrack (st, hr))) = state_of (track hr st)"
  by simp

text \<open>Every hook, given the world \<open>w\<close>, either leaves the instance as it is or is \<open>track\<close>;
  the per-hook facts below are proved once for \<open>track\<close> and lifted.\<close>

lemma run_hook_cases:
  obtains "fst (state_of (run_hook h w)) = fst w"
    | hr where "h = HookTrack" and "fst (state_of (run_hook h w)) = state_of (track hr (fst w))"
  by (cases w, cases "h = HookTrack") (auto simp: run_hook_instance)

lemma track_inv: "ga_inv cfg st \<Longrightarrow> ga_inv cfg (state_of (track hr st))"
  by (cases rule: track_state_cases [of hr st]) (auto simp: ga_inv_def alexa_track_hits_adapter)

lemma track_hits_append:
  "\<exists>new. hits (state_of (track hr st)) = hits st @ new \<and> (\<forall>h \<in> set new. adapter_hit h)"
  by (cases rule: track_state_cases [of hr st]) (auto simp: alexa_track_hits_adapter)

lemma track_pageviews: "pageviews (hits (state_of (track hr st))) \<le> pageviews (hits st) + 1"
proof (cases rule: track_state_cases [of hr st])
  case (sent r j b)
  have "pageviews (hits st @ alexa_track_hits r j b) = pageviews (hits st) + 1"
    using alexa_track_hits_pageviews [of r j b] by (simp add: pageviews_def)
  with sent show ?thesis by simp
qed simp_all

lemma track_flow_errors: "flow_errors (hits (state_of (track hr st))) \<le> flow_errors (hits st) + 1"
proof (cases rule: track_state_cases [of hr st])
  case (sent r j b)
  have "flow_errors (hits st @ alexa_track_hits r j b) \<le> flow_errors (hits st) + 1"
    using alexa_track_hits_flow_errors [of r j b] by (simp add: flow_errors_def)
  with sent show ?thesis by simp
qed simp_all

lemma run_hook_inv:
  assumes "ga_inv cfg (fst w)"
  shows "ga_inv cfg (fst (state_of (run_hook h w)))"
proof (cases rule: run_hook_cases [of h w])
  case 1
  with assms show ?thesis by simp
next
  case (2 hr)
  with assms show ?thesis using track_inv [of cfg "fst w" hr] by simp
qed

lemma run_hook_hits_append:
  "\<exists>new. hits (fst (state_of (run_hook h w))) = hits (fst w) @ new \<and> (\<forall>h \<in> set new. adapter_hit h)"
proof (cases rule: run_hook_cases [of h w])
  case (2 hr)
  then show ?thesis using track_hits_append [of hr "fst w"] by simp
qed simp

lemma run_hook_pageviews:
  "pageviews (hits (fst (state_of (run_hook h w)))) \<le> pageviews (hits (fst w)) + track_weight h"
proof (cases rule: run_hook_cases [of h w])
  case (2 hr)
  then show ?thesis using track_pageviews [of hr "fst w"] by (simp add: track_weight_def)
qed simp

lemma run_hook_flow_errors:
  "flow_errors (hits (fst (state_of (run_hook h w)))) \<le> flow_errors (hits (fst w)) + track_weight h"
proof (cases rule: run_hook_cases [of h w])
  case (2 hr)
  then show ?thesis using track_flow_errors [of hr "fst w"] by (simp add: track_weight_def)
qed simp

lemma handle_inv: "ga_inv cfg st \<Longrightarrow> ga_inv cfg (fst (state_of (handle run_hook a (st, hr))))"
proof -
  have "ga_inv cfg (fst w) \<longrightarrow> ga_inv cfg (fst (state_of (run_middlewares run_hook a ns w)))" for ns w
    by (rule run_middlewares_rel [where R = "\<lambda>w w'. ga_inv cfg (fst w) \<longrightarrow> ga_inv cfg (fst w')"])
       (auto dest: run_hook_inv)
  then show "ga_inv cfg st \<Longrightarrow> ?thesis" by (simp add: handle_def)
qed

lemma handle_pageviews:
  "pageviews (hits (fst (state_of (handle run_hook a w)))) \<le>
     pageviews (hits (fst w)) + hook_weight track_weight a (mw_order a)"
  unfolding handle_def by (rule run_middlewares_bound) (rule run_hook_pageviews)

lemma handle_flow_errors:
  "flow_errors (hits (fst (state_of (handle run_hook a w)))) \<le>
     flow_errors (hits (fst w)) + hook_weight track_weight a (mw_order a)"
  unfolding handle_def by (rule run_middlewares_bound) (rule run_hook_flow_errors)

lemma install_fresh_hooks:
  assumes "install a0 = Ok a" and "fresh_app a0"
  shows "hooks_of a n = (if n = ''after.handler'' \<and> middleware ''after.handler'' a0 \<noteq> None
                           then [HookSetErrorEndReason] else [])
                        @ (if n = ''after.platform.init'' then [HookSetGAObject] else [])
                        @ (if n = ''after.response'' then [HookTrack] else [])"
    and "mw_order a = mw_order a0"
proof -
  from assms(1) have ok: "install_base (use_opt ''after.handler'' HookSetErrorEndReason a0) = Ok a"
    by (simp add: install_def)
  show "hooks_of a n = (if n = ''after.handler'' \<and> middleware ''after.handler'' a0 \<noteq> None
                           then [HookSetErrorEndReason] else [])
                        @ (if n = ''after.platform.init'' then [HookSetGAObject] else [])
                        @ (if n = ''after.response'' then [HookTrack] else [])"
    using install_base_Ok [OF ok, of n] assms(2) by (simp add: hooks_of_use_opt fresh_app_def)
  show "mw_order a = mw_order a0"
    using install_base_Ok [OF ok, of "''x''"] by simp
qed

lemma install_fresh_track_weight:
  assumes "install a0 = Ok a" and "fresh_app a0" and "distinct (mw_order a0)"
  shows "hook_weight track_weight a (mw_order a) = (if ''after.response'' \<in> set (mw_order a0) then 1 else 0)"
proof -
  note h = install_fresh_hooks(1) [OF assms(1,2)] and o = install_fresh_hooks(2) [OF assms(1,2)]
  have "hook_weight track_weight a (mw_order a) =
          (if ''after.response'' \<in> set (mw_order a) then sum_list (map track_weight (hooks_of a ''after.response'')) else 0)"
    by (rule hook_weight_distinct) (use assms(3) o h in \<open>auto simp: track_weight_def\<close>)
  then show ?thesis by (simp add: h o track_weight_def)
qed

lemma fresh_sample_app: "fresh_app sample_app" and fresh_reversed_app: "fresh_app reversed_app"
  by (simp_all add: fresh_app_def hooks_of_def middleware_def sample_app_def reversed_app_def
      split: option.split)

lemma install_reversed_app_Ok: "\<exists>a. install reversed_app = Ok a"
  by (auto simp: install_def install_base_def use_opt_def use_strict_def middleware_def
      reversed_app_def sample_app_def)

text \<open>Middlewares that hold no plugin hook but the payload builder leave the instance as
  it is and change the Alexa Jovo object only in the properties attached to it.\<close>

lemma run_hooks_frame:
  assumes "set hs \<subseteq> {HookSetGAObject}" and "constructor_name j = ''AlexaSkill''"
  shows "\<exists>A. run_hooks run_hook hs (st, \<lparr>hr_jovo = Some j\<rparr>) = Ok (st, \<lparr>hr_jovo = Some (j\<lparr>attached := A\<rparr>)\<rparr>)"
  using assms
proof (induction hs arbitrary: j)
  case Nil
  have "j\<lparr>attached := attached j\<rparr> = j" by simp
  then show ?case by (metis run_hooks.simps(1))
next
  case (Cons h hs)
  let ?j' = "j\<lparr>attached := insert ''$googleAnalytics'' (attached j)\<rparr>"
  from Cons.prems have h: "h = HookSetGAObject" and hs: "set hs \<subseteq> {HookSetGAObject}" by auto
  have step: "run_hook h (st, \<lparr>hr_jovo = Some j\<rparr>) = Ok (st, \<lparr>hr_jovo = Some ?j'\<rparr>)"
    using h Cons.prems(2)
    by (simp add: setGoogleAnalyticsObject_def setGoogleAnalyticsObject_base_def)
  have "constructor_name ?j' = ''AlexaSkill''" using Cons.prems(2) by (simp add: constructor_name_def)
  from Cons.IH [OF hs this] obtain A where
    "run_hooks run_hook hs (st, \<lparr>hr_jovo = Some ?j'\<rparr>) = Ok (st, \<lparr>hr_jovo = Some (?j'\<lparr>attached := A\<rparr>)\<rparr>)"
    by blast
  with step show ?case by auto
qed

lemma run_middlewares_frame:
  assumes "\<forall>n \<in> set ns. set (hooks_of a n) \<subseteq> {HookSetGAObject}" and "constructor_name j = ''AlexaSkill''"
  shows "\<exists>A. run_middlewares run_hook a ns (st, \<lparr>hr_jovo = Some j\<rparr>) = Ok (st, \<lparr>hr_jovo = Some (j\<lparr>attached := A\<rparr>)\<rparr>)"
  using assms
proof (induction ns arbitrary: j)
  case Nil
  have "j\<lparr>attached := attached j\<rparr> = j" by simp
  then show ?case by (metis run_middlewares.simps(1))
next
  case (Cons n ns)
  from run_hooks_frame [of "hooks_of a n" j st] Cons.prems obtain A where
    a: "run_hooks run_hook (hooks_of a n) (st, \<lparr>hr_jovo = Some j\<rparr>) = Ok (st, \<lparr>hr_jovo = Some (j\<lparr>attached := A\<rparr>)\<rparr>)"
    by auto
  have "constructor_name (j\<lparr>attached := A\<rparr>) = ''AlexaSkill''"
    using Cons.prems(2) by (simp add: constructor_name_def)
  with Cons.IH [of "j\<lparr>attached := A\<rparr>"] Cons.prems(1) obtain B where
    "run_middlewares run_hook a ns (st, \<lparr>hr_jovo = Some (j\<lparr>attached := A\<rparr>)\<rparr>) =
       Ok (st, \<lparr>hr_jovo = Some (j\<lparr>attached := A, attached := B\<rparr>)\<rparr>)"
    by auto
  with a show ?case by auto
qed

text \<open>The two hooks of an installed application that act on an Alexa request: the
  \<open>after.handler\<close> hook writes the end reason to the session, the \<open>after.response\<close> hook
  sends the page view with the session's end reason at that moment.\<close>

lemma installed_end_reason_step:
  assumes "install a0 = Ok a" and "fresh_app a0" and "middleware ''after.handler'' a0 \<noteq> None"
    and "alexa_skill j = Some sk" and "trackEndReasons (config st)" and "js_truthy (as_end_reason sk)"
  shows "run_hooks run_hook (hooks_of a ''after.handler'') (st, \<lparr>hr_jovo = Some j\<rparr>) =
           Ok (st, \<lparr>hr_jovo = Some (setEndReason j (as_end_reason sk))\<rparr>)"
  using install_fresh_hooks(1) [OF assms(1,2), of "''after.handler''"] assms(3-6)
  by (simp add: setErrorEndReason_def get_end_reason_def)

lemma installed_track_step:
  assumes "install a0 = Ok a" and "fresh_app a0"
    and "constructor_name j = ''AlexaSkill''" and "request j = AlexaReq r" and "alexa_skill j = Some sk"
  shows "run_hooks run_hook (hooks_of a ''after.response'') (st, \<lparr>hr_jovo = Some j\<rparr>) =
           Ok (st\<lparr>visitor := Some (alexa_visitor r),
                  hits := hits st @ [Pageview (alexa_visitor r) (session_data j ''endReason'')]
                          @ map (Event ''UnhandledEvents'') (unhandled_events j)
                          @ flow_error_hits (as_end_reason sk)\<rparr>, \<lparr>hr_jovo = Some j\<rparr>)"
  using install_fresh_hooks(1) [OF assms(1,2), of "''after.response''"] assms(3-5)
  by (simp add: ga_simps)

lemma installed_hooks_frame:
  assumes "install a0 = Ok a" and "fresh_app a0"
    and "''after.handler'' \<notin> set ns" and "''after.response'' \<notin> set ns"
  shows "\<forall>n \<in> set ns. set (hooks_of a n) \<subseteq> {HookSetGAObject}"
  using install_fresh_hooks(1) [OF assms(1,2)] assms(3,4) by auto

text \<open>C15: every state the tracker instance reaches over any sequence of requests (each
  handled to completion or to a throw, on any application) satisfies the invariant: the
  configuration is the initial one, the visitor is absent, fresh or an Alexa visitor record,
  and every hit sent is a page view of an Alexa visitor record, a base unhandled event or
  the flow-error event.\<close>

theorem served_ga_inv:
  assumes "served a cfg st"
  shows "ga_inv cfg st"
  using assms
proof (induction rule: served.induct)
  case start
  show ?case by (simp add: ga_inv_def ga_initial_def)
next
  case (request st hr)
  from request.IH show ?case by (rule handle_inv)
qed

theorem served_ga_inv_witness:
  "\<exists>a. install sample_app = Ok a \<and>
     ga_inv \<lparr>trackEndReasons = True\<rparr>
       (fst (state_of (handle run_hook a
          (ga_initial \<lparr>trackEndReasons = True\<rparr>, \<lparr>hr_jovo = Some (alexa_jovo echo_dot_request JUndef)\<rparr>))))"
proof -
  obtain a where a: "install sample_app = Ok a" using install_sample_app_Ok by blast
  have "served a \<lparr>trackEndReasons = True\<rparr>
          (fst (state_of (handle run_hook a
             (ga_initial \<lparr>trackEndReasons = True\<rparr>, \<lparr>hr_jovo = Some (alexa_jovo echo_dot_request JUndef)\<rparr>))))"
    by (rule served.request [OF served.start])
  with a show ?thesis using served_ga_inv by blast
qed

text \<open>C16: a request only appends to the hits the instance has sent, whatever the
  application and the request (throws included), and every appended hit is an adapter
  hit: no sent hit is retracted or reordered.\<close>

theorem handle_appends_adapter_hits:
  "\<exists>new. hits (fst (state_of (handle run_hook a (st, hr)))) = hits st @ new \<and>
         (\<forall>h \<in> set new. adapter_hit h)"
proof -
  have "\<exists>new. hits (fst (state_of (run_middlewares run_hook a ns w))) = hits (fst w) @ new \<and>
              (\<forall>h \<in> set new. adapter_hit h)" for ns w
    by (rule run_middlewares_rel
          [where R = "\<lambda>w w'. \<exists>new. hits (fst w') = hits (fst w) @ new \<and> (\<forall>h \<in> set new. adapter_hit h)"])
       (auto intro: run_hook_hits_append)
  from this [of "mw_order a" "(st, hr)"] show ?thesis by (simp add: handle_def)
qed

theorem handle_appends_adapter_hits_witness:
  "\<exists>new. hits (fst (state_of (handle run_hook sample_app
            (initial_ga True, \<lparr>hr_jovo = Some (alexa_jovo echo_dot_request JUndef)\<rparr>)))) = [] @ new \<and>
         list_all adapter_hit new"
  using handle_appends_adapter_hits [of sample_app "initial_ga True"
      "\<lparr>hr_jovo = Some (alexa_jovo echo_dot_request JUndef)\<rparr>"]
  by (simp add: initial_ga_def list_all_iff)

text \<open>C17: on an application installed from one without hooks and with distinct
  middleware names, one request sends at most one page view and at most one flow-error
  event (the spec's "zero or one custom event emission per unhandled-event cycle").\<close>

theorem installed_request_bounds:
  assumes "install a0 = Ok a" and "fresh_app a0" and "distinct (mw_order a0)"
  shows "pageviews (hits (fst (state_of (handle run_hook a w)))) \<le> pageviews (hits (fst w)) + 1 \<and>
         flow_errors (hits (fst (state_of (handle run_hook a w)))) \<le> flow_errors (hits (fst w)) + 1"
  using handle_pageviews [of a w] handle_flow_errors [of a w] install_fresh_track_weight [OF assms]
  by (simp split: if_splits)

theorem installed_request_bounds_witness:
  "\<exists>a. install sample_app = Ok a \<and>
     pageviews (hits (fst (state_of (handle run_hook a (initial_ga True, \<lparr>hr_jovo = None\<rparr>))))) \<le> 0 + 1"
proof -
  obtain a where a: "install sample_app = Ok a" using install_sample_app_Ok by blast
  have d: "distinct (mw_order sample_app)" by (simp add: sample_app_def)
  from installed_request_bounds [OF a fresh_sample_app d, of "(initial_ga True, \<lparr>hr_jovo = None\<rparr>)"] a
  show ?thesis by (auto simp: initial_ga_def pageviews_def)
qed

text \<open>C18 (finding): the end reason reaches the page view only because \<open>after.handler\<close>
  runs before \<open>after.response\<close>.  On every application installed from one without hooks,
  with distinct middleware names, an \<open>after.handler\<close> middleware, and \<open>after.response\<close>
  run before \<open>after.handler\<close>, the page view of an Alexa request carries the end reason
  the session held before the request (none on a new session), while the reason of this
  request is written to the session only afterwards.\<close>

theorem end_reason_lost_if_response_first:
  assumes inst: "install a0 = Ok a" and fresh: "fresh_app a0" and dist: "distinct (mw_order a0)"
    and mah: "middleware ''after.handler'' a0 \<noteq> None"
    and ord: "mw_order a0 = xs @ ''after.response'' # ys @ ''after.handler'' # zs"
    and cls: "constructor_name j = ''AlexaSkill''" and req: "request j = AlexaReq r"
    and sk: "alexa_skill j = Some sk"
    and flag: "trackEndReasons (config st)" and reason: "js_truthy (as_end_reason sk)"
  shows "\<exists>st' j'. handle run_hook a (st, \<lparr>hr_jovo = Some j\<rparr>) = Ok (st', \<lparr>hr_jovo = Some j'\<rparr>) \<and>
           hits st' = hits st @ [Pageview (alexa_visitor r) (session_data j ''endReason'')]
                      @ map (Event ''UnhandledEvents'') (unhandled_events j)
                      @ flow_error_hits (as_end_reason sk) \<and>
           session_data j' ''endReason'' = Some (as_end_reason sk)"
proof -
  note o = install_fresh_hooks(2) [OF inst fresh]
  let ?ah = "''after.handler''" and ?ar = "''after.response''" and ?R = "as_end_reason sk"
  from dist ord have nx: "?ah \<notin> set xs" "?ar \<notin> set xs" and ny: "?ah \<notin> set ys" "?ar \<notin> set ys"
    and nz: "?ah \<notin> set zs" "?ar \<notin> set zs"
    by auto
  obtain A1 where r1: "run_middlewares run_hook a xs (st, \<lparr>hr_jovo = Some j\<rparr>) =
                        Ok (st, \<lparr>hr_jovo = Some (j\<lparr>attached := A1\<rparr>)\<rparr>)"
    using run_middlewares_frame [OF installed_hooks_frame [OF inst fresh nx] cls] by blast
  let ?j1 = "j\<lparr>attached := A1\<rparr>"
  let ?st' = "st\<lparr>visitor := Some (alexa_visitor r),
                 hits := hits st @ [Pageview (alexa_visitor r) (session_data j ''endReason'')]
                         @ map (Event ''UnhandledEvents'') (unhandled_events j) @ flow_error_hits ?R\<rparr>"
  have r2: "run_hooks run_hook (hooks_of a ?ar) (st, \<lparr>hr_jovo = Some ?j1\<rparr>) = Ok (?st', \<lparr>hr_jovo = Some ?j1\<rparr>)"
    using installed_track_step [of a0 a ?j1 r sk st] inst fresh cls req sk by (simp add: constructor_name_def)
  have c1: "constructor_name ?j1 = ''AlexaSkill''" using cls by (simp add: constructor_name_def)
  obtain A2 where r3: "run_middlewares run_hook a ys (?st', \<lparr>hr_jovo = Some ?j1\<rparr>) =
                        Ok (?st', \<lparr>hr_jovo = Some (?j1\<lparr>attached := A2\<rparr>)\<rparr>)"
    using run_middlewares_frame [OF installed_hooks_frame [OF inst fresh ny] c1] by blast
  let ?j3 = "setEndReason (?j1\<lparr>attached := A2\<rparr>) ?R"
  have r4: "run_hooks run_hook (hooks_of a ?ah) (?st', \<lparr>hr_jovo = Some (?j1\<lparr>attached := A2\<rparr>)\<rparr>) =
              Ok (?st', \<lparr>hr_jovo = Some ?j3\<rparr>)"
    using installed_end_reason_step [OF inst fresh mah, of "?j1\<lparr>attached := A2\<rparr>" sk ?st'] sk flag reason
    by simp
  have c3: "constructor_name ?j3 = ''AlexaSkill''" using cls by (simp add: constructor_name_def setEndReason_def)
  obtain A3 where r5: "run_middlewares run_hook a zs (?st', \<lparr>hr_jovo = Some ?j3\<rparr>) =
                        Ok (?st', \<lparr>hr_jovo = Some (?j3\<lparr>attached := A3\<rparr>)\<rparr>)"
    using run_middlewares_frame [OF installed_hooks_frame [OF inst fresh nz] c3] by blast
  have "handle run_hook a (st, \<lparr>hr_jovo = Some j\<rparr>) = Ok (?st', \<lparr>hr_jovo = Some (?j3\<lparr>attached := A3\<rparr>)\<rparr>)"
    using r1 r2 r3 r4 r5 o ord by (simp add: handle_def run_middlewares_append)
  moreover have "session_data (?j3\<lparr>attached := A3\<rparr>) ''endReason'' = Some ?R"
    by (simp add: setEndReason_def)
  ultimately show ?thesis by auto
qed

theorem end_reason_lost_if_response_first_witness:
  "\<exists>a st' j'. install reversed_app = Ok a \<and>
     handle run_hook a (initial_ga True, \<lparr>hr_jovo = Some (alexa_jovo echo_dot_request (JStr ''ERROR''))\<rparr>)
       = Ok (st', \<lparr>hr_jovo = Some j'\<rparr>) \<and>
     hits st' = [Pageview (alexa_visitor echo_dot_request) None] \<and>
     session_data j' ''endReason'' = Some (JStr ''ERROR'')"
proof -
  obtain a where a: "install reversed_app = Ok a" using install_reversed_app_Ok by blast
  have d: "distinct (mw_order reversed_app)"
    and m: "middleware ''after.handler'' reversed_app \<noteq> None"
    and o: "mw_order reversed_app = [''after.platform.init'', ''handler'', ''response''] @ ''after.response'' #
                                    [] @ ''after.handler'' # []"
    by (simp_all add: reversed_app_def sample_app_def middleware_def)
  show ?thesis
    using end_reason_lost_if_response_first [OF a fresh_reversed_app d m o,
        of "alexa_jovo echo_dot_request (JStr ''ERROR'')" echo_dot_request
        "\<lparr>as_end_reason = JStr ''ERROR''\<rparr>" "initial_ga True"] a
    by (simp add: alexa_jovo_def constructor_name_def initial_ga_def flow_error_hits_def)
qed

text \<open>C19: on every application installed from one without hooks, with distinct
  middleware names, an \<open>after.handler\<close> middleware, and \<open>after.handler\<close> run before
  \<open>after.response\<close>, the page view of an Alexa request carries the end reason the
  \<open>after.handler\<close> hook recorded, whatever else runs before, between and after.\<close>

theorem installed_pipeline_records_end_reason:
  assumes inst: "install a0 = Ok a" and fresh: "fresh_app a0" and dist: "distinct (mw_order a0)"
    and mah: "middleware ''after.handler'' a0 \<noteq> None"
    and ord: "mw_order a0 = xs @ ''after.handler'' # ys @ ''after.response'' # zs"
    and cls: "constructor_name j = ''AlexaSkill''" and req: "request j = AlexaReq r"
    and sk: "alexa_skill j = Some sk"
    and flag: "trackEndReasons (config st)" and reason: "js_truthy (as_end_reason sk)"
  shows "\<exists>st' hr'. handle run_hook a (st, \<lparr>hr_jovo = Some j\<rparr>) = Ok (st', hr') \<and>
           hits st' = hits st @ [Pageview (alexa_visitor r) (Some (as_end_reason sk))]
                      @ map (Event ''UnhandledEvents'') (unhandled_events j)
                      @ flow_error_hits (as_end_reason sk)"
proof -
  note o = install_fresh_hooks(2) [OF inst fresh]
  let ?ah = "''after.handler''" and ?ar = "''after.response''" and ?R = "as_end_reason sk"
  from dist ord have nx: "?ah \<notin> set xs" "?ar \<notin> set xs" and ny: "?ah \<notin> set ys" "?ar \<notin> set ys"
    and nz: "?ah \<notin> set zs" "?ar \<notin> set zs"
    by auto
  obtain A1 where r1: "run_middlewares run_hook a xs (st, \<lparr>hr_jovo = Some j\<rparr>) =
                        Ok (st, \<lparr>hr_jovo = Some (j\<lparr>attached := A1\<rparr>)\<rparr>)"
    using run_middlewares_frame [OF installed_hooks_frame [OF inst fresh nx] cls] by blast
  let ?j2 = "setEndReason (j\<lparr>attached := A1\<rparr>) ?R"
  have r2: "run_hooks run_hook (hooks_of a ?ah) (st, \<lparr>hr_jovo = Some (j\<lparr>attached := A1\<rparr>)\<rparr>) =
              Ok (st, \<lparr>hr_jovo = Some ?j2\<rparr>)"
    using installed_end_reason_step [OF inst fresh mah, of "j\<lparr>attached := A1\<rparr>" sk st] sk flag reason
    by simp
  have c2: "constructor_name ?j2 = ''AlexaSkill''" using cls by (simp add: constructor_name_def setEndReason_def)
  obtain A2 where r3: "run_middlewares run_hook a ys (st, \<lparr>hr_jovo = Some ?j2\<rparr>) =
                        Ok (st, \<lparr>hr_jovo = Some (?j2\<lparr>attached := A2\<rparr>)\<rparr>)"
    using run_middlewares_frame [OF installed_hooks_frame [OF inst fresh ny] c2] by blast
  let ?j3 = "?j2\<lparr>attached := A2\<rparr>"
  let ?st' = "st\<lparr>visitor := Some (alexa_visitor r),
                 hits := hits st @ [Pageview (alexa_visitor r) (Some ?R)]
                         @ map (Event ''UnhandledEvents'') (unhandled_events j) @ flow_error_hits ?R\<rparr>"
  have r4: "run_hooks run_hook (hooks_of a ?ar) (st, \<lparr>hr_jovo = Some ?j3\<rparr>) = Ok (?st', \<lparr>hr_jovo = Some ?j3\<rparr>)"
    using installed_track_step [of a0 a ?j3 r sk st] inst fresh cls req sk
    by (simp add: constructor_name_def setEndReason_def)
  have c3: "constructor_name ?j3 = ''AlexaSkill''" using c2 by (simp add: constructor_name_def)
  obtain A3 where r5: "run_middlewares run_hook a zs (?st', \<lparr>hr_jovo = Some ?j3\<rparr>) =
                        Ok (?st', \<lparr>hr_jovo = Some (?j3\<lparr>attached := A3\<rparr>)\<rparr>)"
    using run_middlewares_frame [OF installed_hooks_frame [OF inst fresh nz] c3] by blast
  have "handle run_hook a (st, \<lparr>hr_jovo = Some j\<rparr>) = Ok (?st', \<lparr>hr_jovo = Some (?j3\<lparr>attached := A3\<rparr>)\<rparr>)"
    using r1 r2 r3 r4 r5 o ord by (simp add: handle_def run_middlewares_append)
  then show ?thesis by simp
qed

theorem installed_pipeline_records_end_reason_witness:
  "\<exists>a st' hr'. install sample_app = Ok a \<and>
     handle run_hook a (initial_ga True, \<lparr>hr_jovo = Some (alexa_jovo referred_request (JStr ''ERROR''))\<rparr>)
       = Ok (st', hr') \<and>
     hits st' = [Pageview (alexa_visitor referred_request) (Some (JStr ''ERROR''))]"
proof -
  obtain a where a: "install sample_app = Ok a" using install_sample_app_Ok by blast
  have d: "distinct (mw_order sample_app)"
    and m: "middleware ''after.handler'' sample_app \<noteq> None"
    and o: "mw_order sample_app = [''after.platform.init'', ''handler''] @ ''after.handler'' #
                                   [''response''] @ ''after.response'' # []"
    by (simp_all add: sample_app_def middleware_def)
  show ?thesis
    using installed_pipeline_records_end_reason [OF a fresh_sample_app d m o,
        of "alexa_jovo referred_request (JStr ''ERROR'')" referred_request
        "\<lparr>as_end_reason = JStr ''ERROR''\<rparr>" "initial_ga True"] a
    by (simp add: alexa_jovo_def constructor_name_def initial_ga_def flow_error_hits_def)
qed

end
