(* ===== verification/GA_Requests.thy ===== *)
theory GA_Requests
  imports GA_Pipeline
begin

text \<open>
  Whole requests through applications the plugin is registered with.  The first group
  says what a request can do to the Jovo object: the plugin's hooks change it only in its
  session data and in the properties attached to it (\<open>jovo_frame\<close>), so a well-formed
  Jovo object stays well-formed and no hook, in any application and any registration
  order, throws on it; on the way, each hook sends the page views \<open>pageview_weight\<close>
  counts, which the generic counting lemma of \<open>Jovo_Core\<close> sums over a run.  Requests of
  another platform and requests without a Jovo object are settled for every application
  by the lemma on hooks that return their world unchanged or throw one error.  The
  second group gives a reference for a request through an
  installed application: the three methods the plugin binds called one after the other
  (\<open>direct_request\<close>), which \<open>handle\<close> equals whenever \<open>after.platform.init\<close>,
  \<open>after.handler\<close> and \<open>after.response\<close> run in this order.
\<close>

subsection \<open>Definitions\<close>

text \<open>\<open>j'\<close> is \<open>j\<close> with at most its session data and attached properties changed: the
  class, the request, the Alexa sub-object and the unhandled events are those of \<open>j\<close>.\<close>

definition jovo_frame :: "jovo \<Rightarrow> jovo \<Rightarrow> bool" where
  "jovo_frame j j' \<longleftrightarrow>
     ctor_name j' = ctor_name j \<and> ancestors j' = ancestors j \<and> request j' = request j \<and>
     alexa_skill j' = alexa_skill j \<and> unhandled_events j' = unhandled_events j"

text \<open>A world whose request carries a Jovo object in the frame of \<open>j\<close>.\<close>

definition request_world :: "jovo \<Rightarrow> world \<Rightarrow> bool" where
  "request_world j w \<longleftrightarrow> (case hr_jovo (snd w) of None \<Rightarrow> False | Some j' \<Rightarrow> jovo_frame j j')"

text \<open>The page views a hook sends on a request for the Jovo object \<open>j\<close>: one for the
  tracker's hook when \<open>j\<close> is an \<open>AlexaSkill\<close>, none otherwise.\<close>

definition pageview_weight :: "jovo \<Rightarrow> ga_hook \<Rightarrow> nat" where
  "pageview_weight j h = (if constructor_name j = ''AlexaSkill'' then track_weight h else 0)"

text \<open>The payload builder, the end-reason setter and the tracker of the adapter called in
  this order on one request, each on the request and instance the previous one left.\<close>

definition direct_request :: "world \<Rightarrow> world outcome" where
  "direct_request w = (case w of (st, hr) \<Rightarrow>
     seqE (map_outcome (\<lambda>hr1. (st, hr1)) (setGoogleAnalyticsObject hr)) (\<lambda>(st1, hr1).
     seqE (map_outcome (\<lambda>hr2. (st1, hr2)) (setErrorEndReason st1 hr1)) (\<lambda>(st2, hr2).
     map_outcome (\<lambda>st3. (st3, hr2)) (track hr2 st2))))"

subsection \<open>Lemmas\<close>

lemma jovo_frame_refl [simp]: "jovo_frame j j"
  by (simp add: jovo_frame_def)

lemma jovo_frame_wf: "jovo_frame j j' \<Longrightarrow> wf_jovo j \<Longrightarrow> wf_jovo j'"
  by (simp add: jovo_frame_def wf_jovo_def instance_of_def)

lemma pageviews_append [simp]: "pageviews (xs @ ys) = pageviews xs + pageviews ys"
  by (simp add: pageviews_def)

lemma track_wf_pageviews:
  assumes "hr_jovo hr = Some j" and "wf_jovo j"
  shows "\<exists>st'. track hr st = Ok st' \<and>
           pageviews (hits st') = pageviews (hits st) + (if constructor_name j = ''AlexaSkill'' then 1 else 0)"
proof (cases "constructor_name j = ''AlexaSkill''")
  case True
  from assms(2) True obtain r a where "request j = AlexaReq r" and "alexa_skill j = Some a"
    by (rule wf_jovo_AlexaSkill)
  with assms True show ?thesis
    by (simp add: ga_simps pageviews_def flow_error_hits_def filter_empty_conv)
qed (use assms in \<open>simp add: ga_simps\<close>)

lemma setErrorEndReason_frame:
  "\<exists>j''. setErrorEndReason st \<lparr>hr_jovo = Some j'\<rparr> = Ok \<lparr>hr_jovo = Some j''\<rparr> \<and> jovo_frame j' j''"
  by (simp add: setErrorEndReason_def get_end_reason_def setEndReason_def jovo_frame_def Let_def)

lemma setGoogleAnalyticsObject_frame:
  "\<exists>j''. setGoogleAnalyticsObject \<lparr>hr_jovo = Some j'\<rparr> = Ok \<lparr>hr_jovo = Some j''\<rparr> \<and> jovo_frame j' j''"
  by (auto simp: setGoogleAnalyticsObject_def setGoogleAnalyticsObject_base_def jovo_frame_def)

lemma jovo_frame_trans: "jovo_frame j j' \<Longrightarrow> jovo_frame j' j'' \<Longrightarrow> jovo_frame j j''"
  by (simp add: jovo_frame_def)

lemma installed_hooks_elsewhere:
  assumes "install a0 = Ok a" and "fresh_app a0"
    and "''after.platform.init'' \<notin> set ns" and "''after.handler'' \<notin> set ns"
    and "''after.response'' \<notin> set ns"
  shows "run_middlewares ex a ns w = Ok w"
  using install_fresh_hooks(1) [OF assms(1,2)] assms(3-5)
  by (intro run_middlewares_no_hooks) auto

text \<open>One hook on a request whose Jovo object is in the frame of a well-formed \<open>j\<close>:
  it returns, keeps the frame, and sends \<open>pageview_weight j h\<close> page views.\<close>

lemma run_hook_request_step:
  assumes wf: "wf_jovo j" and w: "request_world j w"
  shows "\<exists>w'. run_hook h w = Ok w' \<and> request_world j w' \<and>
              pageviews (hits (fst w')) = pageviews (hits (fst w)) + pageview_weight j h"
proof -
  obtain st hr where w_eq: "w = (st, hr)" by (cases w)
  from w w_eq obtain j' where hj: "hr_jovo hr = Some j'" and fr: "jovo_frame j j'"
    by (auto simp: request_world_def split: option.splits)
  have hr_eq: "hr = \<lparr>hr_jovo = Some j'\<rparr>" using hj by (cases hr) simp
  show ?thesis
  proof (cases h)
    case HookSetErrorEndReason
    from setErrorEndReason_frame [of st j'] fr show ?thesis
      by (auto simp: w_eq hr_eq HookSetErrorEndReason request_world_def pageview_weight_def
          track_weight_def intro: jovo_frame_trans)
  next
    case HookSetGAObject
    from setGoogleAnalyticsObject_frame [of j'] fr show ?thesis
      by (auto simp: w_eq hr_eq HookSetGAObject request_world_def pageview_weight_def
          track_weight_def intro: jovo_frame_trans)
  next
    case HookTrack
    have "constructor_name j' = constructor_name j" using fr by (simp add: jovo_frame_def constructor_name_def)
    with track_wf_pageviews [OF hj jovo_frame_wf [OF fr wf], of st] show ?thesis
      using w by (auto simp: w_eq HookTrack request_world_def pageview_weight_def track_weight_def)
  qed
qed

text \<open>A whole request on a well-formed Jovo object, on any application: it returns,
  keeps the frame, and sends the page views of the hooks it passes.\<close>

lemma handle_request_count:
  assumes wf: "wf_jovo j"
  shows "\<exists>st' j'. handle run_hook a (st, \<lparr>hr_jovo = Some j\<rparr>) = Ok (st', \<lparr>hr_jovo = Some j'\<rparr>) \<and>
           jovo_frame j j' \<and> pageviews (hits st') = pageviews (hits st) + hook_weight (pageview_weight j) a (mw_order a)"
proof -
  have "request_world j (st, \<lparr>hr_jovo = Some j\<rparr>)" by (simp add: request_world_def)
  from run_middlewares_Ok_count [where P = "request_world j" and ex = run_hook
      and f = "\<lambda>w. pageviews (hits (fst w))" and c = "pageview_weight j",
      OF run_hook_request_step [OF wf] this, of a "mw_order a"]
  obtain st' hr' where run: "handle run_hook a (st, \<lparr>hr_jovo = Some j\<rparr>) = Ok (st', hr')"
    and rw: "request_world j (st', hr')"
    and cnt: "pageviews (hits st') = pageviews (hits st) + hook_weight (pageview_weight j) a (mw_order a)"
    by (auto simp: handle_def)
  from rw obtain j' where "hr' = \<lparr>hr_jovo = Some j'\<rparr>" and "jovo_frame j j'"
    by (cases hr') (auto simp: request_world_def split: option.splits)
  with run cnt show ?thesis by blast
qed

text \<open>C20: on every application, whatever hooks of the plugin it holds and in whatever
  order its middlewares run, a request whose Jovo object is set and well-formed is handled
  without a throw: the \<open>TypeError\<close>s of the unchecked cast, of \<open>$alexaSkill!\<close> and of
  \<open>jovo!\<close> cannot happen.  The Jovo object afterwards differs from the one handled only in
  its session data and attached properties, so it is still well-formed.\<close>

theorem handle_wf_never_throws:
  assumes wf: "wf_jovo j"
  shows "\<exists>st' j'. handle run_hook a (st, \<lparr>hr_jovo = Some j\<rparr>) = Ok (st', \<lparr>hr_jovo = Some j'\<rparr>) \<and>
                  jovo_frame j j' \<and> wf_jovo j'"
proof -
  from handle_request_count [OF wf, of a st] obtain st' j' where
    "handle run_hook a (st, \<lparr>hr_jovo = Some j\<rparr>) = Ok (st', \<lparr>hr_jovo = Some j'\<rparr>)" and "jovo_frame j j'"
    by blast
  with jovo_frame_wf [OF _ wf] show ?thesis by blast
qed

theorem handle_wf_never_throws_witness:
  "\<exists>a. install sample_app = Ok a \<and>
     (\<exists>st' j'. handle run_hook a (initial_ga True, \<lparr>hr_jovo = Some other_jovo\<rparr>) =
                 Ok (st', \<lparr>hr_jovo = Some j'\<rparr>) \<and> jovo_frame other_jovo j' \<and> wf_jovo j')"
proof -
  obtain a where a: "install sample_app = Ok a" using install_sample_app_Ok by blast
  with handle_wf_never_throws [OF wf_other_jovo, of a "initial_ga True"] show ?thesis by blast
qed

text \<open>C21: a request through an application installed from one without hooks, with
  distinct middleware names, an \<open>after.handler\<close> middleware, and \<open>after.platform.init\<close>,
  \<open>after.handler\<close>, \<open>after.response\<close> run in this order, is exactly the payload builder,
  the end-reason setter and the tracker called one after the other, on every request and
  instance state, throws included: the other middlewares and the host's loop add nothing.\<close>

theorem installed_handle_eq_direct:
  assumes inst: "install a0 = Ok a" and fresh: "fresh_app a0" and dist: "distinct (mw_order a0)"
    and mah: "middleware ''after.handler'' a0 \<noteq> None"
    and ord: "mw_order a0 = xs @ ''after.platform.init'' # ys @ ''after.handler'' # zs @ ''after.response'' # us"
  shows "handle run_hook a w = direct_request w"
proof -
  note h = install_fresh_hooks(1) [OF inst fresh] and o = install_fresh_hooks(2) [OF inst fresh]
  note e = installed_hooks_elsewhere [OF inst fresh]
  from dist ord have "run_middlewares run_hook a ns w' = Ok w'" if "ns \<in> {xs, ys, zs, us}" for ns w'
    using that by (auto intro!: e)
  then have nx: "run_middlewares run_hook a xs w' = Ok w'" and ny: "run_middlewares run_hook a ys w' = Ok w'"
    and nz: "run_middlewares run_hook a zs w' = Ok w'" and nu: "run_middlewares run_hook a us w' = Ok w'" for w'
    by simp_all
  have hs: "hooks_of a ''after.platform.init'' = [HookSetGAObject]"
    "hooks_of a ''after.handler'' = [HookSetErrorEndReason]" "hooks_of a ''after.response'' = [HookTrack]"
    using h mah by simp_all
  obtain st hr where w: "w = (st, hr)" by (cases w)
  show ?thesis
    by (simp add: handle_def o ord run_middlewares_append nx ny nz nu hs w direct_request_def
        seqE_def split: outcome.split prod.split)
qed

theorem installed_handle_eq_direct_witness:
  "\<exists>a. install sample_app = Ok a \<and>
     handle run_hook a (initial_ga True, \<lparr>hr_jovo = None\<rparr>) = direct_request (initial_ga True, \<lparr>hr_jovo = None\<rparr>)"
proof -
  obtain a where a: "install sample_app = Ok a" using install_sample_app_Ok by blast
  have d: "distinct (mw_order sample_app)"
    and m: "middleware ''after.handler'' sample_app \<noteq> None"
    and o: "mw_order sample_app = [] @ ''after.platform.init'' # [''handler''] @ ''after.handler'' #
                                   [''response''] @ ''after.response'' # []"
    by (simp_all add: sample_app_def middleware_def)
  from a installed_handle_eq_direct [OF a fresh_sample_app d m o] show ?thesis by blast
qed

text \<open>C22: on every application, whatever hooks of the plugin it holds and in whatever
  order, a request of another platform (a well-formed Jovo object that is not an
  \<open>AlexaSkill\<close>) goes through untouched: no hit, no attached payload, no end reason, no
  throw.\<close>

theorem handle_other_platform_noop:
  assumes "wf_jovo j" and "\<not> instance_of ''AlexaSkill'' j"
  shows "handle run_hook a (st, \<lparr>hr_jovo = Some j\<rparr>) = Ok (st, \<lparr>hr_jovo = Some j\<rparr>)"
proof -
  have "run_hook h (st, \<lparr>hr_jovo = Some j\<rparr>) =
          (if True then Ok (st, \<lparr>hr_jovo = Some j\<rparr>) else Threw err_jovo_not_set (st, \<lparr>hr_jovo = Some j\<rparr>))" for h
    using wf_jovo_not_Alexa [OF assms]
    by (cases h) (simp_all add: ga_simps setErrorEndReason_def get_end_reason_def setGoogleAnalyticsObject_def)
  from run_middlewares_const [where ex = run_hook and P = "\<lambda>_. True" and e = err_jovo_not_set,
      OF this, of a "mw_order a"] show ?thesis
    by (simp add: handle_def list_ex_iff)
qed

theorem handle_other_platform_noop_witness:
  "\<exists>a. install sample_app = Ok a \<and>
     handle run_hook a (initial_ga True, \<lparr>hr_jovo = Some other_jovo\<rparr>) =
       Ok (initial_ga True, \<lparr>hr_jovo = Some other_jovo\<rparr>)"
proof -
  obtain a where a: "install sample_app = Ok a" using install_sample_app_Ok by blast
  with handle_other_platform_noop [OF wf_other_jovo other_jovo_not_Alexa, of a "initial_ga True"]
  show ?thesis by blast
qed

text \<open>C23: on every application, a request without a Jovo object throws the plugin error
  \<open>Jovo object is not set\<close> exactly when one of the hooks the run passes is the payload
  builder or the tracker, and goes through otherwise; either way the instance and the
  request are left as they were (the end-reason hook reads \<open>jovo?.$alexaSkill?\<close> and
  does nothing).\<close>

theorem handle_missing_jovo:
  "handle run_hook a (st, \<lparr>hr_jovo = None\<rparr>) =
     (if list_ex (\<lambda>n. list_ex (\<lambda>h. h \<noteq> HookSetErrorEndReason) (hooks_of a n)) (mw_order a)
      then Threw err_jovo_not_set (st, \<lparr>hr_jovo = None\<rparr>) else Ok (st, \<lparr>hr_jovo = None\<rparr>))"
proof -
  have "run_hook h (st, \<lparr>hr_jovo = None\<rparr>) =
          (if h = HookSetErrorEndReason then Ok (st, \<lparr>hr_jovo = None\<rparr>)
           else Threw err_jovo_not_set (st, \<lparr>hr_jovo = None\<rparr>))" for h
    by (cases h) (simp_all add: ga_simps setErrorEndReason_def get_end_reason_def setGoogleAnalyticsObject_def)
  from run_middlewares_const [where ex = run_hook and P = "\<lambda>h. h = HookSetErrorEndReason"
      and e = err_jovo_not_set, OF this, of a "mw_order a"] show ?thesis
    by (simp add: handle_def)
qed

theorem handle_missing_jovo_witness:
  "\<exists>a. install sample_app = Ok a \<and>
     handle run_hook a (initial_ga True, \<lparr>hr_jovo = None\<rparr>) = Threw err_jovo_not_set (initial_ga True, \<lparr>hr_jovo = None\<rparr>)"
proof -
  obtain a where a: "install sample_app = Ok a" using install_sample_app_Ok by blast
  from handle_missing_jovo [of a "initial_ga True"] installed_sample_app [OF a] a show ?thesis by auto
qed

end
