(* ===== verification/GA_Sessions.thy ===== *)
theory GA_Sessions
  imports GA_Requests
begin

text \<open>
  One tracker instance across a sequence of requests.  The host handles the requests one
  after the other on the same plugin instance (\<open>serve\<close>, by recursion on the list of
  requests, as the traces of the protocol models are); a request that throws leaves the
  instance as it was at the throw, and the next request starts from there.  On an
  installed application every Alexa request of the sequence is reported by exactly one
  page view.
\<close>

subsection \<open>Definitions\<close>

text \<open>The instance after the host handled the requests \<open>hrs\<close>, in order.\<close>

fun serve :: "ga_hook app \<Rightarrow> ga_state \<Rightarrow> handle_request list \<Rightarrow> ga_state" where
  "serve a st [] = st"
| "serve a st (hr # hrs) = serve a (fst (state_of (handle run_hook a (st, hr)))) hrs"

text \<open>A request whose Jovo object is an \<open>AlexaSkill\<close>, the requests the adapter tracks.\<close>

definition alexa_handle_request :: "handle_request \<Rightarrow> bool" where
  "alexa_handle_request hr \<longleftrightarrow>
     (case hr_jovo hr of None \<Rightarrow> False | Some j \<Rightarrow> constructor_name j = ''AlexaSkill'')"

text \<open>A request whose Jovo object is set and well-formed.\<close>

definition wf_handle_request :: "handle_request \<Rightarrow> bool" where
  "wf_handle_request hr \<longleftrightarrow> (case hr_jovo hr of None \<Rightarrow> False | Some j \<Rightarrow> wf_jovo j)"

text \<open>A session of three requests: an Alexa request, a request of another platform, and an
  Alexa request that ended on too many reprompts.\<close>

definition sample_session :: "handle_request list" where
  "sample_session = [\<lparr>hr_jovo = Some (alexa_jovo echo_dot_request JUndef)\<rparr>, \<lparr>hr_jovo = Some other_jovo\<rparr>,
     \<lparr>hr_jovo = Some (alexa_jovo referred_request (JStr ''EXCEEDED_MAX_REPROMPTS''))\<rparr>]"

subsection \<open>Lemmas\<close>

lemma installed_pageview_weight:
  assumes "install a0 = Ok a" and "fresh_app a0" and "distinct (mw_order a0)"
  shows "hook_weight (pageview_weight j) a (mw_order a) =
           (if constructor_name j = ''AlexaSkill'' \<and> ''after.response'' \<in> set (mw_order a0) then 1 else 0)"
proof -
  have "pageview_weight j = (\<lambda>h. if constructor_name j = ''AlexaSkill'' then track_weight h else 0)"
    by (rule ext) (simp add: pageview_weight_def)
  with install_fresh_track_weight [OF assms] show ?thesis by (simp add: hook_weight_if)
qed

text \<open>One request on an installed application: a well-formed request is handled without a
  throw and sends one page view if it is an Alexa request, none otherwise.\<close>

lemma installed_request_pageviews:
  assumes inst: "install a0 = Ok a" and fresh: "fresh_app a0" and dist: "distinct (mw_order a0)"
    and resp: "''after.response'' \<in> set (mw_order a0)" and wf: "wf_handle_request hr"
  shows "pageviews (hits (fst (state_of (handle run_hook a (st, hr))))) =
           pageviews (hits st) + (if alexa_handle_request hr then 1 else 0)"
proof -
  from wf obtain j where hj: "hr_jovo hr = Some j" and wfj: "wf_jovo j"
    by (auto simp: wf_handle_request_def split: option.splits)
  have hr: "hr = \<lparr>hr_jovo = Some j\<rparr>" using hj by (cases hr) simp
  from handle_request_count [OF wfj, of a st] installed_pageview_weight [OF inst fresh dist, of j] resp
  show ?thesis by (auto simp: hr alexa_handle_request_def)
qed

text \<open>C24: on an application installed from one without hooks, with distinct middleware
  names and an \<open>after.response\<close> middleware, every Alexa request of any sequence of
  well-formed requests is reported: the instance sends exactly one page view per Alexa
  request, none for the others, and no request is lost or counted twice.\<close>

theorem serve_reports_alexa_requests:
  assumes inst: "install a0 = Ok a" and fresh: "fresh_app a0" and dist: "distinct (mw_order a0)"
    and resp: "''after.response'' \<in> set (mw_order a0)" and wf: "list_all wf_handle_request hrs"
  shows "pageviews (hits (serve a st hrs)) = pageviews (hits st) + length (filter alexa_handle_request hrs)"
  using wf
proof (induction hrs arbitrary: st)
  case Nil
  then show ?case by simp
next
  case (Cons hr hrs)
  then show ?case using installed_request_pageviews [OF inst fresh dist resp, of hr st] by simp
qed

theorem serve_reports_alexa_requests_witness:
  "\<exists>a. install sample_app = Ok a \<and> pageviews (hits (serve a (initial_ga True) sample_session)) = 2"
proof -
  obtain a where a: "install sample_app = Ok a" using install_sample_app_Ok by blast
  have d: "distinct (mw_order sample_app)" and r: "''after.response'' \<in> set (mw_order sample_app)"
    by (simp_all add: sample_app_def)
  have w: "list_all wf_handle_request sample_session"
    by (simp add: sample_session_def wf_handle_request_def wf_alexa_jovo wf_other_jovo)
  have c: "length (filter alexa_handle_request sample_session) = 2"
    by (simp add: sample_session_def alexa_handle_request_def alexa_jovo_def other_jovo_def constructor_name_def)
  from serve_reports_alexa_requests [OF a fresh_sample_app d r w, of "initial_ga True"] c a show ?thesis
    by (auto simp: initial_ga_def pageviews_def)
qed

end
