(* ===== verification/GA_Errors.thy ===== *)
theory GA_Errors
  imports GA_Sessions
begin

text \<open>
  Requests that break the platform's guarantee (\<open>wf_jovo\<close>), and requests without Jovo
  object.  The errors a request through any application can throw form a closed set
  (\<open>adapter_error\<close>): the plugin error when the Jovo object is missing, and the two
  \<open>TypeError\<close>s of the unchecked cast and of \<open>$alexaSkill!\<close>, only on a Jovo object of class
  \<open>AlexaSkill\<close> that is not well-formed.  Whatever the requests, a sequence of them sends
  a page view for every well-formed Alexa request and none without an Alexa request:
  a throwing request blocks neither the reporting of the requests after it nor is it
  reported twice.
\<close>

subsection \<open>Definitions\<close>

text \<open>What a run keeps of the request it handles: no Jovo object stays none, and a Jovo
  object stays in its frame.\<close>

definition request_frame :: "handle_request \<Rightarrow> handle_request \<Rightarrow> bool" where
  "request_frame hr hr' \<longleftrightarrow>
     (case hr_jovo hr of
        None \<Rightarrow> hr_jovo hr' = None
      | Some j \<Rightarrow> (case hr_jovo hr' of None \<Rightarrow> False | Some j' \<Rightarrow> jovo_frame j j'))"

text \<open>The errors a request \<open>hr\<close> can throw through the adapter's hooks.\<close>

definition adapter_error :: "handle_request \<Rightarrow> js_error \<Rightarrow> bool" where
  "adapter_error hr e \<longleftrightarrow>
     (case hr_jovo hr of
        None \<Rightarrow> e = err_jovo_not_set
      | Some j \<Rightarrow> constructor_name j = ''AlexaSkill'' \<and> \<not> wf_jovo j \<and>
                  (e = err_no_device_name \<or> e = err_no_alexa_skill))"

text \<open>A Jovo object of class \<open>AlexaSkill\<close> without Alexa sub-object, and a session that
  ends with a request for it.\<close>

definition malformed_jovo :: jovo where
  "malformed_jovo = (alexa_jovo echo_dot_request JUndef)\<lparr>alexa_skill := None\<rparr>"

definition malformed_session :: "handle_request list" where
  "malformed_session = sample_session @ [\<lparr>hr_jovo = Some malformed_jovo\<rparr>]"

subsection \<open>Lemmas\<close>

lemma request_frame_refl [simp]: "request_frame hr hr"
  by (simp add: request_frame_def split: option.split)

lemma jovo_frame_wf_iff: "jovo_frame j j' \<Longrightarrow> wf_jovo j' = wf_jovo j"
  by (simp add: jovo_frame_def wf_jovo_def instance_of_def)

lemma jovo_frame_ctor: "jovo_frame j j' \<Longrightarrow> constructor_name j' = constructor_name j"
  by (simp add: jovo_frame_def constructor_name_def)

lemma request_frame_adapter_error:
  "request_frame hr0 hr \<Longrightarrow> adapter_error hr e = adapter_error hr0 e"
  by (auto simp: request_frame_def adapter_error_def jovo_frame_wf_iff jovo_frame_ctor split: option.splits)

lemma request_frame_alexa:
  "request_frame hr0 hr \<Longrightarrow> alexa_handle_request hr = alexa_handle_request hr0"
  by (auto simp: request_frame_def alexa_handle_request_def jovo_frame_ctor split: option.splits)

text \<open>Every hook keeps the request in its frame, thrown or not.\<close>

lemma run_hook_request_frame:
  assumes "request_frame hr0 (snd w)"
  shows "request_frame hr0 (snd (state_of (run_hook h w)))"
proof -
  obtain st hr where w: "w = (st, hr)" by (cases w)
  show ?thesis
  proof (cases "hr_jovo hr")
    case None
    then have hr: "hr = \<lparr>hr_jovo = None\<rparr>" by (cases hr) simp
    with assms w show ?thesis
      by (cases h) (simp_all add: setErrorEndReason_def get_end_reason_def setGoogleAnalyticsObject_def)
  next
    case (Some j')
    then have hr: "hr = \<lparr>hr_jovo = Some j'\<rparr>" by (cases hr) simp
    from assms w hr have fr: "request_frame hr0 \<lparr>hr_jovo = Some j'\<rparr>" by simp
    show ?thesis
    proof (cases h)
      case HookSetErrorEndReason
      from setErrorEndReason_frame [of st j'] fr show ?thesis
        by (auto simp: w hr HookSetErrorEndReason request_frame_def split: option.splits
            intro: jovo_frame_trans)
    next
      case HookSetGAObject
      from setGoogleAnalyticsObject_frame [of j'] fr show ?thesis
        by (auto simp: w hr HookSetGAObject request_frame_def split: option.splits
            intro: jovo_frame_trans)
    qed (use fr w hr in simp)
  qed
qed

text \<open>What each hook throws, from the request it is given.\<close>

lemma track_Threw:
  assumes "track hr st = Threw e st'"
  shows "adapter_error hr e"
proof (cases "hr_jovo hr")
  case None
  with assms show ?thesis by (simp add: ga_simps adapter_error_def)
next
  case (Some j)
  show ?thesis
  proof (cases "constructor_name j = ''AlexaSkill''")
    case False
    with assms Some show ?thesis by (simp add: ga_simps)
  next
    case True
    show ?thesis
    proof (cases "request j")
      case (OtherReq x)
      with assms Some True show ?thesis
        by (auto simp: ga_simps adapter_error_def wf_jovo_def instance_of_def constructor_name_def)
    next
      case (AlexaReq r)
      with assms Some True show ?thesis
        by (cases "alexa_skill j")
           (auto simp: ga_simps adapter_error_def wf_jovo_def instance_of_def constructor_name_def
            sendUserEvent_def split: if_splits)
    qed
  qed
qed

text \<open>The tracker's hook sends a page view only for an Alexa request, on every request
  in the frame of \<open>hr0\<close>; the other hooks send none.\<close>

lemma run_hook_pageviews_frame:
  assumes "request_frame hr0 (snd w)"
  shows "request_frame hr0 (snd (state_of (run_hook h w))) \<and>
         pageviews (hits (fst (state_of (run_hook h w)))) \<le>
           pageviews (hits (fst w)) + (if alexa_handle_request hr0 then track_weight h else 0)"
proof -
  obtain st hr where w: "w = (st, hr)" by (cases w)
  have "pageviews (hits (fst (state_of (run_hook h w)))) \<le>
          pageviews (hits (fst w)) + (if alexa_handle_request hr then track_weight h else 0)"
  proof (cases "h = HookTrack")
    case True
    show ?thesis
    proof (cases "alexa_handle_request hr")
      case True
      with \<open>h = HookTrack\<close> w track_pageviews [of hr st] show ?thesis by (simp add: track_weight_def)
    next
      case False
      then have "state_of (track hr st) = st"
        by (cases "hr_jovo hr") (auto simp: alexa_handle_request_def ga_simps)
      with \<open>h = HookTrack\<close> w show ?thesis by simp
    qed
  next
    case False
    with w run_hook_instance [OF False, of st hr] show ?thesis by simp
  qed
  with request_frame_alexa [OF assms] run_hook_request_frame [OF assms, of h] show ?thesis
    using w by simp
qed

text \<open>A request never retracts a page view.\<close>

lemma handle_pageviews_mono:
  "pageviews (hits (fst w)) \<le> pageviews (hits (fst (state_of (handle run_hook a w))))"
proof -
  have "pageviews (hits (fst w)) \<le> pageviews (hits (fst (state_of (run_hook h w))))" for h w
    using run_hook_hits_append [of h w] by auto
  then show ?thesis unfolding handle_def
    by (rule run_middlewares_rel [where R = "\<lambda>w w'. pageviews (hits (fst w)) \<le> pageviews (hits (fst w'))"])
       (auto intro: le_trans)
qed

text \<open>On an installed application, a request sends at most one page view, and none when it
  is not an Alexa request, well-formed or not.\<close>

lemma installed_handle_pageviews_le:
  assumes inst: "install a0 = Ok a" and fresh: "fresh_app a0" and dist: "distinct (mw_order a0)"
  shows "pageviews (hits (fst (state_of (handle run_hook a (st, hr))))) \<le>
           pageviews (hits st) + (if alexa_handle_request hr then 1 else 0)"
proof -
  from run_middlewares_bound_inv [where P = "\<lambda>w. request_frame hr (snd w)" and ex = run_hook
      and f = "\<lambda>w. pageviews (hits (fst w))" and c = "\<lambda>h. if alexa_handle_request hr then track_weight h else 0",
      OF run_hook_pageviews_frame, of "(st, hr)" a "mw_order a"]
  have "pageviews (hits (fst (state_of (handle run_hook a (st, hr))))) \<le>
          pageviews (hits st) + (if alexa_handle_request hr then hook_weight track_weight a (mw_order a) else 0)"
    by (simp add: handle_def hook_weight_if)
  with install_fresh_track_weight [OF inst fresh dist] show ?thesis by (simp split: if_splits)
qed

text \<open>The malformed request through the installed sample application: the page view is
  sent, the base's events are sent, and then \<open>$alexaSkill!\<close> throws.\<close>

lemma malformed_request_Threw:
  assumes "install sample_app = Ok a"
  shows "\<exists>w'. handle run_hook a (initial_ga True, \<lparr>hr_jovo = Some malformed_jovo\<rparr>) = Threw err_no_alexa_skill w' \<and>
              pageviews (hits (fst w')) = 1"
  using installed_sample_app [OF assms]
  by (simp add: pipeline_unfold ga_simps malformed_jovo_def alexa_jovo_def constructor_name_def
      initial_ga_def pageviews_def)

text \<open>C25: on every application, whatever hooks of the plugin it holds and in whatever
  order, every error a request throws is the plugin error \<open>Jovo object is not set\<close> on a
  request without Jovo object, or the \<open>TypeError\<close> of the unchecked cast or of
  \<open>$alexaSkill!\<close> on a Jovo object of class \<open>AlexaSkill\<close> that is not well-formed; no
  other error, and none at all on a well-formed Jovo object of any platform.\<close>

theorem handle_Threw_adapter_error:
  assumes "handle run_hook a (st, hr) = Threw e w'"
  shows "adapter_error hr e"
proof -
  have thr: "adapter_error hr e'" if "request_frame hr (snd w)" and "run_hook h w = Threw e' w''" for h w e' w''
  proof -
    obtain st1 hr1 where w: "w = (st1, hr1)" by (cases w)
    have "adapter_error hr1 e'"
    proof (cases h)
      case HookTrack
      with that w show ?thesis by (cases "track hr1 st1") (auto intro: track_Threw)
    qed (use that w in \<open>auto simp: setErrorEndReason_def get_end_reason_def setGoogleAnalyticsObject_def
          setGoogleAnalyticsObject_base_def adapter_error_def Let_def split: option.splits if_splits\<close>)
    with request_frame_adapter_error [of hr hr1 e'] that w show ?thesis by simp
  qed
  have "request_frame hr (snd (st, hr)) \<Longrightarrow> run_middlewares run_hook a (mw_order a) (st, hr) = Threw e w' \<Longrightarrow>
          adapter_error hr e"
    by (rule run_middlewares_Threw [where P = "\<lambda>w. request_frame hr (snd w)" and Q = "adapter_error hr"
          and ex = run_hook, OF run_hook_request_frame thr])
  with assms show ?thesis by (simp add: handle_def)
qed

theorem handle_Threw_adapter_error_witness:
  "\<exists>a w'. install sample_app = Ok a \<and>
     handle run_hook a (initial_ga True, \<lparr>hr_jovo = Some malformed_jovo\<rparr>) = Threw err_no_alexa_skill w' \<and>
     adapter_error \<lparr>hr_jovo = Some malformed_jovo\<rparr> err_no_alexa_skill"
proof -
  obtain a where a: "install sample_app = Ok a" using install_sample_app_Ok by blast
  from malformed_request_Threw [OF a] obtain w' where
    t: "handle run_hook a (initial_ga True, \<lparr>hr_jovo = Some malformed_jovo\<rparr>) = Threw err_no_alexa_skill w'"
    by blast
  with a handle_Threw_adapter_error [OF t] show ?thesis by blast
qed

text \<open>C26: on an application installed from one without hooks, with distinct middleware
  names and an \<open>after.response\<close> middleware, any sequence of requests (malformed ones and
  ones without Jovo object included) sends at least one page view per well-formed Alexa
  request and at most one per Alexa request: a request that throws neither blocks the
  reporting of the requests after it nor sends a page view of another platform.\<close>

theorem serve_pageview_bounds:
  assumes inst: "install a0 = Ok a" and fresh: "fresh_app a0" and dist: "distinct (mw_order a0)"
    and resp: "''after.response'' \<in> set (mw_order a0)"
  shows "pageviews (hits st) + length (filter (\<lambda>hr. wf_handle_request hr \<and> alexa_handle_request hr) hrs)
           \<le> pageviews (hits (serve a st hrs)) \<and>
         pageviews (hits (serve a st hrs)) \<le> pageviews (hits st) + length (filter alexa_handle_request hrs)"
proof (induction hrs arbitrary: st)
  case Nil
  then show ?case by simp
next
  case (Cons hr hrs)
  let ?st1 = "fst (state_of (handle run_hook a (st, hr)))"
  have up: "pageviews (hits ?st1) \<le> pageviews (hits st) + (if alexa_handle_request hr then 1 else 0)"
    by (rule installed_handle_pageviews_le [OF inst fresh dist])
  have low: "pageviews (hits st) + (if wf_handle_request hr \<and> alexa_handle_request hr then 1 else 0)
               \<le> pageviews (hits ?st1)"
  proof (cases "wf_handle_request hr")
    case True
    with installed_request_pageviews [OF inst fresh dist resp True, of st] show ?thesis by simp
  next
    case False
    with handle_pageviews_mono [of "(st, hr)" a] show ?thesis by simp
  qed
  from Cons.IH [of ?st1] up low show ?case by (simp split: if_splits)
qed

theorem serve_pageview_bounds_witness:
  "\<exists>a. install sample_app = Ok a \<and>
     0 + 2 \<le> pageviews (hits (serve a (initial_ga True) malformed_session)) \<and>
     pageviews (hits (serve a (initial_ga True) malformed_session)) \<le> 0 + 3"
proof -
  obtain a where a: "install sample_app = Ok a" using install_sample_app_Ok by blast
  have d: "distinct (mw_order sample_app)" and r: "''after.response'' \<in> set (mw_order sample_app)"
    by (simp_all add: sample_app_def)
  have w: "length (filter (\<lambda>hr. wf_handle_request hr \<and> alexa_handle_request hr) malformed_session) = 2"
    by (simp add: malformed_session_def sample_session_def wf_handle_request_def alexa_handle_request_def
        wf_alexa_jovo wf_other_jovo malformed_jovo_def alexa_jovo_def other_jovo_def constructor_name_def
        wf_jovo_def instance_of_def)
  have c: "length (filter alexa_handle_request malformed_session) = 3"
    by (simp add: malformed_session_def sample_session_def alexa_handle_request_def malformed_jovo_def
        alexa_jovo_def other_jovo_def constructor_name_def)
  from serve_pageview_bounds [OF a fresh_sample_app d r, of "initial_ga True" malformed_session] w c a
  show ?thesis by (auto simp: initial_ga_def pageviews_def)
qed

end
