(* ===== verification/Spec2Isabelle.thy ===== *)
theory Spec2Isabelle
  imports GA_Errors
begin

text \<open>
  \<^bold>\<open>A verification of the Alexa adapter of jovo-analytics-googleanalytics.\<close>

  \<^bold>\<open>The program.\<close>  \<open>src/jovo-integrations/jovo-analytics-googleanalytics/src/
  GoogleAnalyticsAlexa.ts\<close> is the class \<open>GoogleAnalyticsAlexa\<close>, a subclass of the
  generic tracker \<open>GoogleAnalytics\<close>.  It registers a hook on the host's
  \<open>after.handler\<close> middleware (\<open>install\<close>), filters \<open>track\<close> and
  \<open>setGoogleAnalyticsObject\<close> to Jovo objects whose class is \<open>AlexaSkill\<close> and throws a
  plugin error when there is no Jovo object, enriches the visitor record with
  Alexa fields (\<open>initVisitor\<close>), copies the Alexa end reason onto the session
  (\<open>setErrorEndReason\<close>) and sends a flow-error event for \<open>EXCEEDED_MAX_REPROMPTS\<close>
  (\<open>sendUnhandledEvents\<close>).  The base class calls back the overriding
  \<open>initVisitor\<close> and \<open>sendUnhandledEvents\<close> from its own \<open>track\<close>, and the host runs the
  registered hooks in middleware order on each request.

  \<^bold>\<open>The theories.\<close>
  \<^item> \<open>GA_Prelude\<close>: the errors (\<open>JovoError\<close>, \<open>TypeError\<close>), the outcome of a call that
    may throw (\<open>Ok s\<close> or \<open>Threw e s\<close>, keeping the state at the throw, since JavaScript
    does not roll back the mutations before a throw) and its sequencing \<open>seqE\<close>.
  \<^item> \<open>JS_Values\<close>: the JavaScript semantics the source relies on: values \<open>jsval\<close>,
    truthiness \<open>js_truthy\<close> (\<open>if (referrer)\<close>, \<open>&&\<close>), template-literal conversion
    \<open>js_to_string\<close>, and \<open>lodash_get\<close> (\<open>castPath\<close>, \<open>stringToPath\<close> for dotted
    paths, and the \<open>baseGet\<close> loop kept as a loop, \<open>while_option\<close> on the state
    \<open>(object, index)\<close>, with its index check).  The loop is proved to exit
    (\<open>measure_while_option_Some\<close> with the measure \<open>length path - index\<close>) and to compute
    the recursive walk \<open>get_walk\<close> (invariant by \<open>while_option_rule\<close>, exit condition
    by \<open>while_option_stop\<close>).
  \<^item> \<open>Jovo_Core\<close> (modelled from the spec, not under \<open>src/\<close>): the Jovo object
    (\<open>constructor.name\<close>, ancestors, \<open>$request\<close>, \<open>$alexaSkill\<close>, session data), the
    \<open>HandleRequest\<close>, the middleware registry (\<open>use_opt\<close> for \<open>?.use\<close>,
    \<open>use_strict\<close> for \<open>!.use\<close>) and the sequential run \<open>run_middlewares\<close>, generic in
    the hook type and the state.  \<open>wf_jovo\<close> is what jovo-platform-alexa guarantees:
    an \<open>AlexaSkill\<close> instance has \<open>$alexaSkill\<close> and an Alexa request.
  \<^item> \<open>GA_Base\<close> (modelled from the spec): the base tracker's instance state
    \<open>ga_state\<close> (config, visitor, the hits sent so far), its methods, and the method
    table \<open>methods\<close> through which its \<open>track_base\<close> calls the overridable methods.
  \<^item> \<open>GA_Alexa\<close>: the adapter, one definition per method of the source, the errors
    it throws (\<open>err_jovo_not_set\<close>, and \<open>err_no_device_name\<close>, \<open>err_no_alexa_skill\<close>
    for the \<open>TypeError\<close>s of the unchecked cast and of \<open>$alexaSkill!\<close>), the
    characteristic equations (collection \<open>ga_simps\<close>) and claims C1 to C9.
  \<^item> \<open>GA_Pipeline\<close>: the hooks bound to the adapter instance (\<open>run_hook\<close> on the
    world \<open>ga_state \<times> handle_request\<close>, as \<open>this.m.bind(this)\<close> registers them), the
    generic run lemmas of \<open>Jovo_Core\<close> instantiated to them, the tracker instance across
    requests as the inductive relation \<open>served\<close> with its invariant \<open>ga_inv\<close>, the
    counts of sent page views and flow-error events, the two hooks of an installed
    application that act on an Alexa request (\<open>installed_end_reason_step\<close>,
    \<open>installed_track_step\<close>) and the frame of the others; claims C15 to C19.
  \<^item> \<open>GA_Requests\<close>: what a request does to the Jovo object (\<open>jovo_frame\<close>: only its
    session data and attached properties change), and the reference \<open>direct_request\<close>
    (the three bound methods called in order) for a request through an installed
    application; the per-hook step (a well-formed request never throws, keeps its frame
    and sends one page view at the tracker's hook of an Alexa request), lifted to whole
    runs by the generic counting lemma of \<open>Jovo_Core\<close>; claims C20 to C23.
  \<^item> \<open>GA_Sessions\<close>: one instance serving a sequence of requests (\<open>serve\<close>, by
    recursion on the list of requests) and the reporting of every Alexa request; claim C24.
  \<^item> \<open>GA_Errors\<close>: requests that break the platform's guarantee or carry no Jovo
    object: the closed set \<open>adapter_error\<close> of what a request can throw (lifted from the
    hooks to runs by the generic throw lemma of \<open>Jovo_Core\<close>, with the request kept in
    its \<open>request_frame\<close>), and the page-view bounds over arbitrary sequences of requests;
    claims C25 and C26.
  \<^item> This theory: the composition design of the spec's section 9 (\<open>generic_track\<close>
    with a platform strategy) as the abstract specification of \<open>track\<close>, and the
    properties that span components, C10 to C14.

  \<^bold>\<open>What is proved.\<close>  C1 to C3: \<open>track\<close> on each branch (missing Jovo object,
  other platform, Alexa with the exact hits in order).  C4, C5: the visitor fields
  \<open>initVisitor\<close> sets, the campaign fields iff the referrer is truthy (a finding: an
  empty referrer string is present metadata but falsy, so it is not recorded).  C6:
  \<open>setGoogleAnalyticsObject\<close> on each branch.  C7: \<open>setErrorEndReason\<close> never throws and
  records the reason iff the flag is set and the reason truthy.  C8: the flow-error event.
  C9: \<open>install\<close> appends its hook to \<open>after.handler\<close> only when that middleware exists
  (\<open>?.use\<close>), then the base's hooks, and throws exactly when a middleware the base needs is
  missing.  C10: refinement of the composition design by the inheritance-based code on
  well-formed Jovo objects.  C11: \<open>track\<close> never throws on a well-formed Jovo object.
  C12: the referrer read follows the path and is \<open>undefined\<close> as soon as a link is
  missing.  C13 (finding): on every installed application, a request whose well-formed
  Jovo object is an instance of a subclass of \<open>AlexaSkill\<close> sends nothing and leaves the
  tracker unchanged; only its end reason is written to the session.  C14:
  \<open>sendUnhandledEvents\<close> throws on a Jovo object without \<open>$alexaSkill\<close> after the base's
  events were sent.  C15: every state the instance reaches over any sequence of requests
  (rule induction on \<open>served\<close>) satisfies \<open>ga_inv\<close>.  C16: a request only appends adapter
  hits, on any application and any request, throws included.  C17: on an installed
  application, one request sends at most one page view and at most one flow-error event.
  C18 (finding): on every installed application that runs \<open>after.response\<close> before
  \<open>after.handler\<close>, the page view carries the end reason the session held before the
  request, and the request's own reason is written only afterwards.  C19: on every
  installed application that runs \<open>after.handler\<close> before \<open>after.response\<close>, the page
  view carries the reason the \<open>after.handler\<close> hook recorded.  C20: on every application,
  whatever plugin hooks it holds and in whatever order, a request with a well-formed Jovo
  object is handled without a throw and leaves the Jovo object well-formed (the non-null
  assertions and the unchecked cast of the source never fire there).  C21: on an installed
  application that runs \<open>after.platform.init\<close>, \<open>after.handler\<close>, \<open>after.response\<close> in
  this order, handling a request is exactly the three bound methods called one after the
  other, throws included.  C22: on every application a request of another platform is a
  no-op.  C23: on every application a request without Jovo object throws the plugin error
  exactly when the run passes the payload builder or the tracker, and changes nothing.
  C24: on an installed application every Alexa request of a sequence of well-formed
  requests is reported by exactly one page view.  C25: every error a request throws, on
  every application, is the plugin error on a missing Jovo object or one of the two
  \<open>TypeError\<close>s on an \<open>AlexaSkill\<close> Jovo object that is not well-formed (a finding against
  the spec's single error kind).  C26: over any sequence of requests, malformed ones
  included, the page views are at least the well-formed Alexa requests and at most the
  Alexa requests.

  \<^bold>\<open>Not modelled.\<close>  The network send of universal-analytics (a hit is an element of
  \<open>hits\<close>); the host's error middleware \<open>fail\<close>, to which the spec says a thrown
  error bubbles: the adapter registers no hook there, and what reaches it is exactly the
  \<open>Threw\<close> outcome of \<open>handle\<close>, which C20, C23 and C25 characterise (no throw on a
  well-formed request; the plugin error, with everything unchanged, on a missing Jovo
  object; nothing but the three adapter errors otherwise); asynchronous scheduling (hooks
  run to completion in order, as the spec's concurrency section says); how the Alexa
  accessors read the raw request (their results are fields of \<open>alexa_request\<close>); bracket
  paths, prototype lookup and property access on primitives in lodash (the adapter's one
  path has none of them).  The adapter has no loop and no arithmetic; the one loop it
  reaches is lodash's \<open>baseGet\<close>, whose exit is proved (\<open>base_get_loop_halts\<close> in
  \<open>JS_Values\<close>), so no fuel is needed; every other recursion of the model is structural
  (hook lists, middleware names, requests, path segments, digits), and no machine integer
  occurs.  The bounds worth stating are the hits per request (C17) and per sequence of
  requests (C24, C26).

  \<^bold>\<open>Limits of the model.\<close>  Every line of the adapter is modelled; what is left is
  the code it calls and that is not in the repository: the base tracker, jovo-core and
  jovo-platform-alexa are modelled only as far as the spec describes what the adapter
  consumes from them (their components are partly modelled for that reason), and lodash
  only on the dotted paths the adapter passes.  The base tracker's own failures (a send
  that fails in universal-analytics) are outside the spec's contract for the adapter.
  Three behaviours of that external code are assumptions of the model, not facts the
  spec states, and the claims that depend on them say so here:
  \<^item> \<open>track_base\<close> calls \<open>initVisitor\<close>, then sends the page view, then
    \<open>sendUnhandledEvents\<close> (the order of the published base tracker; the spec only says
    the base calls the two overridden methods back).  The exact order of hits in C3 and
    C19 rests on it; the counts of C17, C24 and C26 do not.
  \<^item> \<open>initVisitor_base\<close> creates an empty visitor record.  That the visitor holds exactly
    the fields of C4 and C5 rests on it; that the adapter's own fields are set, and the
    campaign fields iff the referrer is truthy, would hold over any base record that has
    none of the adapter's keys.
  \<^item> lodash's \<open>get\<close> reads a property of \<open>null\<close> or \<open>undefined\<close> as \<open>undefined\<close>
    (\<open>prop_get\<close>); the \<open>baseGet\<close> loop never performs that read, because its guard stops
    at a nullish object first, so C12 does not depend on it.
\<close>

subsection \<open>The composition design of the spec\<close>

text \<open>A generic tracker with a pluggable platform strategy (\<open>shouldTrack\<close>,
  \<open>enrichVisitor\<close>, \<open>onUnhandled\<close>): the abstract specification of \<open>track\<close>.\<close>

record strategy =
  shouldTrack :: "jovo \<Rightarrow> bool"
  enrichVisitor :: "jovo \<Rightarrow> (string \<rightharpoonup> jsval)"
  onUnhandled :: "jovo \<Rightarrow> hit list"

definition generic_track :: "strategy \<Rightarrow> handle_request \<Rightarrow> ga_state \<Rightarrow> ga_state outcome" where
  "generic_track S hr st =
     (case hr_jovo hr of
        None \<Rightarrow> Threw err_jovo_not_set st
      | Some j \<Rightarrow>
          if \<not> shouldTrack S j then Ok st
          else (let v = enrichVisitor S j in
                Ok (st\<lparr>visitor := Some v,
                       hits := hits st @ [Pageview v (session_data j ''endReason'')]
                               @ map (Event ''UnhandledEvents'') (unhandled_events j) @ onUnhandled S j\<rparr>)))"

definition alexa_strategy :: strategy where
  "alexa_strategy =
     \<lparr>shouldTrack = (\<lambda>j. constructor_name j = ''AlexaSkill''),
      enrichVisitor = (\<lambda>j. case request j of AlexaReq r \<Rightarrow> alexa_visitor r | OtherReq _ \<Rightarrow> Map.empty),
      onUnhandled = (\<lambda>j. case alexa_skill j of None \<Rightarrow> [] | Some a \<Rightarrow> flow_error_hits (as_end_reason a))\<rparr>"

text \<open>A Jovo object of a subclass of \<open>AlexaSkill\<close> whose request ended with an error.\<close>

definition sub_alexa_jovo :: jovo where
  "sub_alexa_jovo = (alexa_jovo echo_dot_request (JStr ''ERROR''))\<lparr>ctor_name := ''MySkill'', ancestors := [''AlexaSkill'', ''Jovo'']\<rparr>"

subsection \<open>Properties across components\<close>

text \<open>C10: on well-formed Jovo objects, the inheritance-based \<open>track\<close> of the source
  implements the spec's composition design: a generic tracker with the Alexa strategy
  (track iff the class is \<open>AlexaSkill\<close>, enrich with the Alexa visitor fields, add the
  flow-error event).\<close>

theorem track_refines_generic:
  assumes "\<forall>j. hr_jovo hr = Some j \<longrightarrow> wf_jovo j"
  shows "track hr st = generic_track alexa_strategy hr st"
proof (cases "hr_jovo hr")
  case None
  then show ?thesis by (simp add: ga_simps generic_track_def)
next
  case (Some j)
  show ?thesis
  proof (cases "constructor_name j = ''AlexaSkill''")
    case True
    from assms Some have wf: "wf_jovo j" by simp
    from wf True obtain r a where "request j = AlexaReq r" and "alexa_skill j = Some a"
      by (rule wf_jovo_AlexaSkill)
    with Some True show ?thesis
      by (simp add: ga_simps generic_track_def alexa_strategy_def Let_def)
  next
    case False
    with Some show ?thesis by (simp add: ga_simps generic_track_def alexa_strategy_def)
  qed
qed

theorem track_refines_generic_witness:
  "track \<lparr>hr_jovo = Some (alexa_jovo referred_request JUndef)\<rparr> (initial_ga False) =
   generic_track alexa_strategy \<lparr>hr_jovo = Some (alexa_jovo referred_request JUndef)\<rparr> (initial_ga False)"
  using track_refines_generic [of "\<lparr>hr_jovo = Some (alexa_jovo referred_request JUndef)\<rparr>"]
  by (simp add: wf_alexa_jovo)

text \<open>C11: \<open>track\<close> never throws on a well-formed Jovo object: the \<open>TypeError\<close>s of the
  unchecked cast and of \<open>$alexaSkill!\<close> cannot happen once the class check passed.\<close>

theorem track_wf_never_throws:
  assumes "hr_jovo hr = Some j" and "wf_jovo j"
  shows "\<exists>st'. track hr st = Ok st'"
  using track_wf_pageviews [OF assms, of st] by blast

theorem track_wf_never_throws_witness:
  "\<exists>st'. track \<lparr>hr_jovo = Some (alexa_jovo echo_dot_request (JStr ''ERROR''))\<rparr> (initial_ga True) = Ok st'"
  using track_wf_never_throws [of "\<lparr>hr_jovo = Some (alexa_jovo echo_dot_request (JStr ''ERROR''))\<rparr>"
      "alexa_jovo echo_dot_request (JStr ''ERROR'')"]
  by (simp add: wf_alexa_jovo)

text \<open>C12: the referrer read \<open>_get(request, 'request.metadata.referrer')\<close> walks the three
  path segments and is \<open>undefined\<close> as soon as \<open>request\<close> or \<open>metadata\<close> is missing
  or nullish (unless the body has a key spelled \<open>'request.metadata.referrer'\<close>).\<close>

theorem get_referrer_path:
  assumes "\<not> has_key body ''request.metadata.referrer''"
  shows "get_referrer body =
           (case get_walk body [''request'', ''metadata''] of
              None \<Rightarrow> JUndef
            | Some m \<Rightarrow> if is_nullish m then JUndef else prop_get m ''referrer'')"
proof -
  have "split_dots ''request.metadata.referrer'' = [''request'', ''metadata''] @ [''referrer'']"
    by simp
  with assms show ?thesis
    by (simp add: get_referrer_def lodash_get_def cast_path_def base_get_walk get_walk_append
        split: option.split)
qed

theorem get_referrer_path_witness:
  "get_referrer (JObj [(''request'', JObj [])]) = JUndef"
  using get_referrer_path [of "JObj [(''request'', JObj [])]"] by simp

text \<open>C13 (finding): the platform check compares \<open>constructor.name\<close> with
  \<open>'AlexaSkill'\<close>, though the spec calls it an instance test.  On every application
  installed from one without hooks, with distinct middleware names and an
  \<open>after.handler\<close> middleware, a request whose well-formed Jovo object is an instance
  of a subclass of \<open>AlexaSkill\<close> is never tracked: no visitor is set and no hit is
  sent, whatever the order of the other middlewares.  Only the \<open>after.handler\<close> hook,
  which does not check the class, acts: it writes the end reason to the session.\<close>

theorem subclass_of_AlexaSkill_not_tracked:
  assumes inst: "install a0 = Ok a" and fresh: "fresh_app a0" and dist: "distinct (mw_order a0)"
    and mah: "middleware ''after.handler'' a0 \<noteq> None"
    and ord: "mw_order a0 = xs @ ''after.handler'' # ys"
    and wf: "wf_jovo j" and sub: "instance_of ''AlexaSkill'' j"
    and cls: "constructor_name j \<noteq> ''AlexaSkill''" and sk: "alexa_skill j = Some sk"
    and flag: "trackEndReasons (config st)" and reason: "js_truthy (as_end_reason sk)"
  shows "handle run_hook a (st, \<lparr>hr_jovo = Some j\<rparr>) =
           Ok (st, \<lparr>hr_jovo = Some (setEndReason j (as_end_reason sk))\<rparr>)"
proof -
  note h = install_fresh_hooks(1) [OF inst fresh] and o = install_fresh_hooks(2) [OF inst fresh]
  let ?ah = "''after.handler''" and ?j' = "setEndReason j (as_end_reason sk)"
  have hs: "set (hooks_of a n) \<subseteq> {HookSetGAObject, HookTrack}" if "n \<noteq> ?ah" for n
    using h [of n] that by (simp split: if_splits)
  have idle: "run_hook hk (st, \<lparr>hr_jovo = Some i\<rparr>) = Ok (st, \<lparr>hr_jovo = Some i\<rparr>)"
    if "hk \<in> {HookSetGAObject, HookTrack}" and "constructor_name i \<noteq> ''AlexaSkill''" for hk i
    using that by (auto simp: setGoogleAnalyticsObject_def track_def)
  have still: "run_middlewares run_hook a ns (st, \<lparr>hr_jovo = Some i\<rparr>) = Ok (st, \<lparr>hr_jovo = Some i\<rparr>)"
    if ns: "?ah \<notin> set ns" and ci: "constructor_name i \<noteq> ''AlexaSkill''" for ns i
  proof (rule run_middlewares_fixpoint, intro ballI)
    fix n hk assume n: "n \<in> set ns" and hk: "hk \<in> set (hooks_of a n)"
    from n ns have "n \<noteq> ?ah" by blast
    with hs hk have "hk \<in> {HookSetGAObject, HookTrack}" by blast
    from idle [OF this ci] show "run_hook hk (st, \<lparr>hr_jovo = Some i\<rparr>) = Ok (st, \<lparr>hr_jovo = Some i\<rparr>)" .
  qed
  from dist ord have nx: "?ah \<notin> set xs" and ny: "?ah \<notin> set ys" by auto
  have c': "constructor_name ?j' \<noteq> ''AlexaSkill''" using cls by (simp add: constructor_name_def setEndReason_def)
  show ?thesis
    using still [OF nx cls] installed_end_reason_step [OF inst fresh mah sk flag reason] still [OF ny c'] o ord
    by (simp add: handle_def run_middlewares_append)
qed

theorem subclass_of_AlexaSkill_not_tracked_witness:
  "\<exists>a. install sample_app = Ok a \<and>
     handle run_hook a (initial_ga True, \<lparr>hr_jovo = Some sub_alexa_jovo\<rparr>) =
       Ok (initial_ga True, \<lparr>hr_jovo = Some (setEndReason sub_alexa_jovo (JStr ''ERROR''))\<rparr>)"
proof -
  obtain a where a: "install sample_app = Ok a" using install_sample_app_Ok by blast
  have d: "distinct (mw_order sample_app)"
    and m: "middleware ''after.handler'' sample_app \<noteq> None"
    and o: "mw_order sample_app = [''after.platform.init'', ''handler''] @ ''after.handler'' #
                                   [''response'', ''after.response'']"
    by (simp_all add: sample_app_def middleware_def)
  have j: "wf_jovo sub_alexa_jovo" "instance_of ''AlexaSkill'' sub_alexa_jovo"
    "constructor_name sub_alexa_jovo \<noteq> ''AlexaSkill''"
    "alexa_skill sub_alexa_jovo = Some \<lparr>as_end_reason = JStr ''ERROR''\<rparr>"
    by (simp_all add: sub_alexa_jovo_def alexa_jovo_def wf_jovo_def instance_of_def constructor_name_def)
  show ?thesis
    using subclass_of_AlexaSkill_not_tracked [OF a fresh_sample_app d m o j, of "initial_ga True"] a
    by (simp add: initial_ga_def)
qed

text \<open>C14: on a Jovo object without \<open>$alexaSkill\<close>, \<open>sendUnhandledEvents\<close> throws a
  \<open>TypeError\<close> at \<open>jovo.$alexaSkill!\<close>, and the base's unhandled events stay sent.\<close>

theorem sendUnhandledEvents_without_skill:
  assumes "alexa_skill j = None"
  shows "sendUnhandledEvents j st =
           Threw (TypeError ''Cannot read properties of undefined (reading 'getEndReason')'')
             (st\<lparr>hits := hits st @ map (Event ''UnhandledEvents'') (unhandled_events j)\<rparr>)"
  using assms by (simp add: sendUnhandledEvents_def sendUnhandledEvents_base_def err_no_alexa_skill_def)

theorem sendUnhandledEvents_without_skill_witness:
  "sendUnhandledEvents (other_jovo\<lparr>unhandled_events := [''Unhandled'']\<rparr>) (initial_ga True) =
     Threw (TypeError ''Cannot read properties of undefined (reading 'getEndReason')'')
       ((initial_ga True)\<lparr>hits := [Event ''UnhandledEvents'' ''Unhandled'']\<rparr>)"
  using sendUnhandledEvents_without_skill [of "other_jovo\<lparr>unhandled_events := [''Unhandled'']\<rparr>" "initial_ga True"]
  by (simp add: other_jovo_def initial_ga_def)

end
